theory Spec2Isabelle
  imports Main "HOL-Library.Multiset"
begin

section \<open>JavaScript numbers and Date objects\<close>

text \<open>
  The daily to-do page (the second document of \<^verbatim>\<open>src/app/login/page.tsx\<close>) does all its
  calendar work on JavaScript \<^verbatim>\<open>Date\<close> objects. A \<^verbatim>\<open>Date\<close> holds one Number, its time value:
  milliseconds since 1970-01-01T00:00Z, or \<^verbatim>\<open>NaN\<close> for an Invalid Date. The accessors the
  page uses (\<^verbatim>\<open>getDay\<close>, \<^verbatim>\<open>getDate\<close>, \<^verbatim>\<open>setDate\<close>, \<^verbatim>\<open>setHours\<close>) read and write the time value
  in local time, whereas \<^verbatim>\<open>toISOString\<close> and the parsing of a date-only string
  \<^verbatim>\<open>YYYY-MM-DD\<close> work in UTC.

  The time arithmetic follows the abstract operations of the language standard
  (\<open>Day\<close>, \<open>WeekDay\<close>, \<open>LocalTime\<close>, \<open>UTC\<close>), whose names are kept.

  Modelling assumptions, all stated here once:
  \<^item> the local time zone has a constant offset \<open>tz\<close> from UTC (local time = UTC + \<open>tz\<close>
    milliseconds; no daylight-saving transition happens between the dates involved);
  \<^item> time values stay inside the range a \<^verbatim>\<open>Date\<close> can hold;
  \<^item> a date-only string \<^verbatim>\<open>YYYY-MM-DD\<close> is represented by the number of its day, counted
    from 1970-01-01 (day 0, a Thursday); the conversion between the two is a bijection
    and is not modelled.
\<close>

datatype number = NaN | Num int

type_synonym Date = number

definition msPerDay :: int where
  "msPerDay = 86400000"

definition Day :: "int \<Rightarrow> int" where
  "Day t = t div msPerDay"

definition WeekDay :: "int \<Rightarrow> int" where
  "WeekDay t = (Day t + 4) mod 7"

definition LocalTime :: "int \<Rightarrow> int \<Rightarrow> int" where
  "LocalTime tz t = t + tz"

definition UTC :: "int \<Rightarrow> int \<Rightarrow> int" where
  "UTC tz t = t - tz"

text \<open>\<^verbatim>\<open>date.getDay()\<close>: the day of the week in local time, 0 = Sunday ... 6 = Saturday;
  \<^verbatim>\<open>NaN\<close> on an Invalid Date.\<close>

definition getDay :: "int \<Rightarrow> Date \<Rightarrow> number" where
  "getDay tz date = (case date of NaN \<Rightarrow> NaN | Num t \<Rightarrow> Num (WeekDay (LocalTime tz t)))"

text \<open>\<^verbatim>\<open>date.getTime()\<close>.\<close>

definition getTime :: "Date \<Rightarrow> number" where
  "getTime date = date"

text \<open>\<^verbatim>\<open>date.setDate(date.getDate() + 1)\<close>: the same local time of day on the next local
  calendar day (month and year roll over inside \<^verbatim>\<open>setDate\<close>).\<close>

definition setDateNext :: "int \<Rightarrow> Date \<Rightarrow> Date" where
  "setDateNext tz date =
     (case date of NaN \<Rightarrow> NaN | Num t \<Rightarrow> Num (UTC tz (LocalTime tz t + msPerDay)))"

text \<open>\<^verbatim>\<open>date.setHours(0, 0, 0, 0)\<close>: local midnight of the same local calendar day.\<close>

definition setHours0 :: "int \<Rightarrow> Date \<Rightarrow> Date" where
  "setHours0 tz date =
     (case date of NaN \<Rightarrow> NaN | Num t \<Rightarrow> Num (UTC tz (Day (LocalTime tz t) * msPerDay)))"

text \<open>The relational operators on Dates and Numbers: every comparison with \<^verbatim>\<open>NaN\<close> is false.\<close>

fun num_le :: "number \<Rightarrow> number \<Rightarrow> bool" where
  "num_le (Num a) (Num b) = (a \<le> b)"
| "num_le _ _ = False"

fun num_lt :: "number \<Rightarrow> number \<Rightarrow> bool" where
  "num_lt (Num a) (Num b) = (a < b)"
| "num_lt _ _ = False"

text \<open>A date string as the outreach log and the due-info record carry it: \<open>IsoDate k\<close> is
  the date-only string of day \<open>k\<close>; \<open>NotADate\<close> is any non-empty string that
  \<^verbatim>\<open>new Date(string)\<close> cannot parse.\<close>

datatype datestring = IsoDate int | NotADate

text \<open>\<^verbatim>\<open>new Date(string)\<close>: a date-only string is midnight UTC of that day.\<close>

definition newDate :: "datestring \<Rightarrow> Date" where
  "newDate s = (case s of IsoDate k \<Rightarrow> Num (k * msPerDay) | NotADate \<Rightarrow> NaN)"

datatype error = RangeError

text \<open>\<^verbatim>\<open>formatDate(date) = date.toISOString().split('T')[0]\<close>: the UTC calendar day;
  \<^verbatim>\<open>toISOString\<close> throws a RangeError on an Invalid Date.\<close>

definition formatDate :: "Date \<Rightarrow> error + datestring" where
  "formatDate date = (case date of NaN \<Rightarrow> Inl RangeError | Num t \<Rightarrow> Inr (IsoDate (Day t)))"

section \<open>The business-day calendar\<close>

text \<open>\<^verbatim>\<open>
function isBusinessDay(date: Date): boolean {
  const day = date.getDay();
  return day !== 0 && day !== 6; // 0 = Sunday, 6 = Saturday
}\<close>\<close>

definition isBusinessDay :: "int \<Rightarrow> Date \<Rightarrow> bool" where
  "isBusinessDay tz date = (let day = getDay tz date in day \<noteq> Num 0 \<and> day \<noteq> Num 6)"

text \<open>The names of the days of the week, to read \<^const>\<open>getDay\<close>'s numbers.\<close>

datatype weekday = Sunday | Monday | Tuesday | Wednesday | Thursday | Friday | Saturday

definition weekdayOf :: "int \<Rightarrow> weekday" where
  "weekdayOf n =
     (if n = 0 then Sunday else if n = 1 then Monday else if n = 2 then Tuesday
      else if n = 3 then Wednesday else if n = 4 then Thursday
      else if n = 5 then Friday else Saturday)"

text \<open>The day of the week a valid Date falls on in local time.\<close>

definition dayOfWeek :: "int \<Rightarrow> int \<Rightarrow> weekday" where
  "dayOfWeek tz t = weekdayOf (WeekDay (LocalTime tz t))"

text \<open>Local midnight of the local calendar day \<open>d\<close> (days counted from 1970-01-01): the
  Dates that \<^const>\<open>setHours0\<close> produces, and the only ones the engine hands to the
  calendar.\<close>

definition localMidnight :: "int \<Rightarrow> int \<Rightarrow> int" where
  "localMidnight tz d = UTC tz (d * msPerDay)"

text \<open>\<^verbatim>\<open>
function getNextBusinessDay(fromDate: Date): Date {
  const next = new Date(fromDate);
  next.setDate(next.getDate() + 1);
  while (!isBusinessDay(next)) {
    next.setDate(next.getDate() + 1);
  }
  return next;
}\<close>\<close>

function getNextBusinessDay_while :: "int \<Rightarrow> Date \<Rightarrow> Date" where
  "getNextBusinessDay_while tz next =
     (if \<not> isBusinessDay tz next then getNextBusinessDay_while tz (setDateNext tz next)
      else next)"
  by pat_completeness auto

termination
proof (relation "measure (\<lambda>(tz, next). case next of NaN \<Rightarrow> 0
                     | Num t \<Rightarrow> nat ((8 - WeekDay (LocalTime tz t)) mod 7))")
  show "wf (measure (\<lambda>(tz, next). case next of NaN \<Rightarrow> 0
                     | Num t \<Rightarrow> nat ((8 - WeekDay (LocalTime tz t)) mod 7)))"
    by simp
next
  fix tz :: int and "next" :: Date
  assume nb: "\<not> isBusinessDay tz next"
  then obtain t where t: "next = Num t"
    by (cases "next") (simp_all add: isBusinessDay_def getDay_def)
  have w: "WeekDay (LocalTime tz t) = 0 \<or> WeekDay (LocalTime tz t) = 6"
    using nb t by (auto simp add: isBusinessDay_def getDay_def)
  have "Day (LocalTime tz t + msPerDay) = Day (LocalTime tz t) + 1"
    by (simp add: Day_def msPerDay_def)
  then have s: "WeekDay (LocalTime tz t + msPerDay) = (WeekDay (LocalTime tz t) + 1) mod 7"
    unfolding WeekDay_def by presburger
  have n: "setDateNext tz (Num t) = Num (t + msPerDay)"
    by (simp add: setDateNext_def UTC_def LocalTime_def)
  have l: "LocalTime tz (t + msPerDay) = LocalTime tz t + msPerDay"
    by (simp add: LocalTime_def)
  show "((tz, setDateNext tz next), (tz, next))
        \<in> measure (\<lambda>(tz, next). case next of NaN \<Rightarrow> 0
                     | Num t \<Rightarrow> nat ((8 - WeekDay (LocalTime tz t)) mod 7))"
    using w by (auto simp add: n t l s)
qed

definition getNextBusinessDay :: "int \<Rightarrow> Date \<Rightarrow> Date" where
  "getNextBusinessDay tz fromDate = getNextBusinessDay_while tz (setDateNext tz fromDate)"

text \<open>\<^verbatim>\<open>
function countBusinessDays(startDate: Date, endDate: Date): number {
  let count = 0;
  const current = new Date(startDate);
  current.setDate(current.getDate() + 1);
  while (current <= endDate) {
    if (isBusinessDay(current)) {
      count++;
    }
    current.setDate(current.getDate() + 1);
  }
  return count;
}\<close>\<close>

function countBusinessDays_while :: "int \<Rightarrow> Date \<Rightarrow> Date \<Rightarrow> int \<Rightarrow> int" where
  "countBusinessDays_while tz current endDate cnt =
     (if num_le current endDate
      then countBusinessDays_while tz (setDateNext tz current) endDate
             (if isBusinessDay tz current then cnt + 1 else cnt)
      else cnt)"
  by pat_completeness auto

termination
proof (relation "measure (\<lambda>(tz, current, endDate, cnt).
          case (current, endDate) of (Num c, Num e) \<Rightarrow> nat (e - c + 1) | _ \<Rightarrow> 0)")
  show "wf (measure (\<lambda>(tz, current, endDate, cnt).
          case (current, endDate) of (Num c, Num e) \<Rightarrow> nat (e - c + 1) | _ \<Rightarrow> 0))"
    by simp
next
  fix tz :: int and current endDate :: Date and cnt :: int
  assume le: "num_le current endDate"
  then obtain c e where ce: "current = Num c" "endDate = Num e" "c \<le> e"
    by (cases current; cases endDate) simp_all
  have n: "setDateNext tz (Num c) = Num (c + msPerDay)"
    by (simp add: setDateNext_def UTC_def LocalTime_def)
  show "((tz, setDateNext tz current, endDate, if isBusinessDay tz current then cnt + 1 else cnt),
         (tz, current, endDate, cnt))
        \<in> measure (\<lambda>(tz, current, endDate, cnt).
          case (current, endDate) of (Num c, Num e) \<Rightarrow> nat (e - c + 1) | _ \<Rightarrow> 0)"
    using ce by (simp add: n msPerDay_def)
qed

definition countBusinessDays :: "int \<Rightarrow> Date \<Rightarrow> Date \<Rightarrow> int" where
  "countBusinessDays tz startDate endDate =
     countBusinessDays_while tz (setDateNext tz startDate) endDate 0"

text \<open>\<^verbatim>\<open>
function addBusinessDays(startDate: Date, businessDays: number): Date {
  const result = new Date(startDate);
  let daysAdded = 0;
  while (daysAdded < businessDays) {
    result.setDate(result.getDate() + 1);
    if (isBusinessDay(result)) {
      daysAdded++;
    }
  }
  return result;
}\<close>\<close>

function addBusinessDays_while :: "int \<Rightarrow> Date \<Rightarrow> int \<Rightarrow> int \<Rightarrow> Date" where
  "addBusinessDays_while tz result daysAdded businessDays =
     (if daysAdded < businessDays
      then (let result' = setDateNext tz result
            in addBusinessDays_while tz result'
                 (if isBusinessDay tz result' then daysAdded + 1 else daysAdded) businessDays)
      else result)"
  by pat_completeness auto

termination
proof (relation "measure (\<lambda>(tz, result, daysAdded, businessDays).
          nat (3 * (businessDays - daysAdded)) +
          (case result of NaN \<Rightarrow> 1
           | Num t \<Rightarrow> if WeekDay (LocalTime tz t) = 5 then 3
                      else if WeekDay (LocalTime tz t) = 6 then 2 else 1))")
  show "wf (measure (\<lambda>(tz, result, daysAdded, businessDays).
          nat (3 * (businessDays - daysAdded)) +
          (case result of NaN \<Rightarrow> 1
           | Num t \<Rightarrow> if WeekDay (LocalTime tz t) = 5 then 3
                      else if WeekDay (LocalTime tz t) = 6 then 2 else 1)))"
    by simp
next
  fix tz :: int and result :: Date and daysAdded businessDays :: int and x :: Date
  assume lt: "daysAdded < businessDays" and x: "x = setDateNext tz result"
  show "((tz, x, if isBusinessDay tz x then daysAdded + 1 else daysAdded, businessDays),
         (tz, result, daysAdded, businessDays))
        \<in> measure (\<lambda>(tz, result, daysAdded, businessDays).
          nat (3 * (businessDays - daysAdded)) +
          (case result of NaN \<Rightarrow> 1
           | Num t \<Rightarrow> if WeekDay (LocalTime tz t) = 5 then 3
                      else if WeekDay (LocalTime tz t) = 6 then 2 else 1))"
  proof (cases result)
    case NaN
    then have "x = NaN" "isBusinessDay tz x"
      using x by (simp_all add: setDateNext_def isBusinessDay_def getDay_def)
    then show ?thesis using lt NaN by simp
  next
    case (Num t)
    have "Day (LocalTime tz t + msPerDay) = Day (LocalTime tz t) + 1"
      by (simp add: Day_def msPerDay_def)
    then have s: "WeekDay (LocalTime tz t + msPerDay) = (WeekDay (LocalTime tz t) + 1) mod 7"
      unfolding WeekDay_def by presburger
    have r: "0 \<le> WeekDay (LocalTime tz t)" "WeekDay (LocalTime tz t) < 7"
      unfolding WeekDay_def by simp_all
    have n: "x = Num (t + msPerDay)"
      using x Num by (simp add: setDateNext_def UTC_def LocalTime_def)
    have l: "LocalTime tz (t + msPerDay) = LocalTime tz t + msPerDay"
      by (simp add: LocalTime_def)
    have b: "isBusinessDay tz (Num (t + msPerDay)) =
               ((WeekDay (LocalTime tz t) + 1) mod 7 \<noteq> 0 \<and> (WeekDay (LocalTime tz t) + 1) mod 7 \<noteq> 6)"
      by (simp add: isBusinessDay_def getDay_def l s)
    show ?thesis
    proof (cases "isBusinessDay tz (Num (t + msPerDay))")
      case True
      then show ?thesis using lt Num n by (simp add: l s algebra_simps; linarith)
    next
      case False
      then have "WeekDay (LocalTime tz t) = 5 \<or> WeekDay (LocalTime tz t) = 6"
        using b r by presburger
      then show ?thesis using lt Num n False by (auto simp add: l s)
    qed
  qed
qed

definition addBusinessDays :: "int \<Rightarrow> Date \<Rightarrow> int \<Rightarrow> Date" where
  "addBusinessDays tz startDate businessDays = addBusinessDays_while tz startDate 0 businessDays"

section \<open>The due-date engine\<close>

text \<open>The rows the page reads from the store. Only the fields the engine looks at are
  kept; \<^verbatim>\<open>id\<close> and \<^verbatim>\<open>name\<close> carry a prefix because the records share one name space.
  A \<^verbatim>\<open>null\<close> column is \<open>None\<close>.\<close>

record HealthSystem =
  hs_name :: string

record Opportunity =
  opp_id :: string
  status :: "string option"
  health_systems :: HealthSystem

record Contact =
  con_id :: string
  con_name :: string
  opportunity_id :: "string option"
  cadence_days :: "int option"

record OutreachLog =
  contact_id :: string
  contact_date :: datestring
  contact_method :: string

text \<open>An entry of \<^verbatim>\<open>lastOutreach: Record<string, { date: string; method: string }>\<close>
  (the field \<^verbatim>\<open>method\<close> is written with a prime, the plain word being reserved).\<close>

record LastOutreach =
  date :: datestring
  method' :: string

text \<open>\<^verbatim>\<open>
type ContactWithDueInfo = Contact & {
  health_system: HealthSystem;
  opportunity: Opportunity;
  last_contact_date: string | null;
  days_since_contact: number | null;
  days_overdue: number;
  due_date: string;
  is_rollover: boolean;
};\<close>\<close>

record ContactWithDueInfo = Contact +
  health_system :: HealthSystem
  opportunity :: Opportunity
  last_contact_date :: "datestring option"
  days_since_contact :: "number option"
  days_overdue :: int
  due_date :: datestring
  is_rollover :: bool

text \<open>What \<^verbatim>\<open>fetchData\<close> leaves in the page state when it completes.\<close>

record TodoState =
  todayContacts :: "ContactWithDueInfo list"
  nextDayContacts :: "ContactWithDueInfo list"
  nextBusinessDay :: Date
  isBusinessDayToday :: bool

text \<open>\<^verbatim>\<open>data || []\<close> on a query result that may be \<^verbatim>\<open>null\<close>.\<close>

definition orEmpty :: "'a list option \<Rightarrow> 'a list" where
  "orEmpty data = (case data of None \<Rightarrow> [] | Some rows \<Rightarrow> rows)"

text \<open>\<^verbatim>\<open>(o: Opportunity) => !o.status || o.status === 'prospect'\<close>: a \<^verbatim>\<open>null\<close> and an
  empty status are both falsy.\<close>

definition isProspect :: "Opportunity \<Rightarrow> bool" where
  "isProspect opp = (status opp = None \<or> status opp = Some [] \<or> status opp = Some ''prospect'')"

text \<open>\<^verbatim>\<open>(oppsData || []).forEach(opp => { oppsMap[opp.id] = opp; })\<close>: the callback,
  then the loop over the rows.\<close>

definition setOpp :: "Opportunity \<Rightarrow> (string \<rightharpoonup> Opportunity) \<Rightarrow> (string \<rightharpoonup> Opportunity)" where
  "setOpp opp oppsMap = oppsMap(opp_id opp \<mapsto> opp)"

definition buildOppsMap :: "Opportunity list \<Rightarrow> (string \<rightharpoonup> Opportunity)" where
  "buildOppsMap oppsData = fold setOpp oppsData Map.empty"

text \<open>\<^verbatim>\<open>
(logsData || []).forEach((log: OutreachLog) => {
  if (!lastOutreach[log.contact_id]) {
    lastOutreach[log.contact_id] = { date: log.contact_date, method: log.contact_method };
  }
});\<close>
  The logs arrive ordered by \<^verbatim>\<open>contact_date\<close> descending, so the first log of a contact
  is its latest.\<close>

definition noteOutreach ::
  "OutreachLog \<Rightarrow> (string \<rightharpoonup> LastOutreach) \<Rightarrow> (string \<rightharpoonup> LastOutreach)" where
  "noteOutreach log lastOutreach =
     (if lastOutreach (contact_id log) = None
      then lastOutreach(contact_id log \<mapsto>
             \<lparr>date = contact_date log, method' = contact_method log\<rparr>)
      else lastOutreach)"

definition buildLastOutreach :: "OutreachLog list \<Rightarrow> (string \<rightharpoonup> LastOutreach)" where
  "buildLastOutreach logsData = fold noteOutreach logsData Map.empty"

text \<open>\<^verbatim>\<open>contact.opportunity_id || ''\<close>\<close>

definition oppKey :: "'a Contact_scheme \<Rightarrow> string" where
  "oppKey contact = (case opportunity_id contact of None \<Rightarrow> [] | Some i \<Rightarrow> i)"

text \<open>\<^verbatim>\<open>contact.cadence_days || 10\<close>: \<^verbatim>\<open>null\<close> and 0 are falsy, every other number is kept.\<close>

definition cadenceOrDefault :: "int option \<Rightarrow> int" where
  "cadenceOrDefault c = (case c of None \<Rightarrow> 10 | Some n \<Rightarrow> if n = 0 then 10 else n)"

text \<open>\<^verbatim>\<open>Math.floor((a.getTime() - b.getTime()) / (1000 * 60 * 60 * 24))\<close>\<close>

definition floorDays :: "number \<Rightarrow> number \<Rightarrow> number" where
  "floorDays a b =
     (case (a, b) of (Num x, Num y) \<Rightarrow> Num ((x - y) div (1000 * 60 * 60 * 24)) | _ \<Rightarrow> NaN)"

text \<open>The body of \<^verbatim>\<open>(contactsData || []).forEach((contact: Contact) => { ... })\<close>:
  \<open>Inr None\<close> is the early \<^verbatim>\<open>return\<close> for a contact whose opportunity is not in the map,
  \<open>Inr (Some r)\<close> the record pushed on \<^verbatim>\<open>allDueContacts\<close>, \<open>Inl e\<close> an exception.
  \<^verbatim>\<open>
  const opp = oppsMap[contact.opportunity_id || ''];
  if (!opp) return;
  const last = lastOutreach[contact.id];
  let dueDate: Date;
  let daysSinceContact: number | null = null;
  if (last) {
    const lastContactDate = new Date(last.date);
    lastContactDate.setHours(0, 0, 0, 0);
    daysSinceContact = Math.floor((today.getTime() - lastContactDate.getTime()) / (1000 * 60 * 60 * 24));
    dueDate = addBusinessDays(lastContactDate, contact.cadence_days || 10);
  } else {
    dueDate = isBizDay ? today : nextBizDay;
  }
  const dueDateStr = formatDate(dueDate);
  const daysOverdue = countBusinessDays(dueDate, today);
  const isRollover = dueDate < today && isBizDay;
  allDueContacts.push({ ...contact, health_system: opp.health_systems, opportunity: opp,
    last_contact_date: last?.date || null, days_since_contact: daysSinceContact,
    days_overdue: daysOverdue, due_date: dueDateStr, is_rollover: isRollover });\<close>\<close>

definition dueInfo ::
  "int \<Rightarrow> Date \<Rightarrow> bool \<Rightarrow> Date \<Rightarrow> (string \<rightharpoonup> Opportunity) \<Rightarrow> (string \<rightharpoonup> LastOutreach)
     \<Rightarrow> Contact \<Rightarrow> error + ContactWithDueInfo option" where
  "dueInfo tz today isBizDay nextBizDay oppsMap lastOutreach contact =
     (case oppsMap (oppKey contact) of
        None \<Rightarrow> Inr None
      | Some opp \<Rightarrow>
          (let last = lastOutreach (con_id contact);
               (dueDate, daysSinceContact) =
                 (case last of
                    Some l \<Rightarrow>
                      (let lastContactDate = setHours0 tz (newDate (date l))
                       in (addBusinessDays tz lastContactDate
                             (cadenceOrDefault (cadence_days contact)),
                           Some (floorDays (getTime today) (getTime lastContactDate))))
                  | None \<Rightarrow> (if isBizDay then today else nextBizDay, None))
           in case formatDate dueDate of
                Inl e \<Rightarrow> Inl e
              | Inr dueDateStr \<Rightarrow>
                  Inr (Some (Contact.extend contact
                    (ContactWithDueInfo.fields (health_systems opp) opp
                       (map_option date last) daysSinceContact
                       (countBusinessDays tz dueDate today) dueDateStr
                       (num_lt dueDate today \<and> isBizDay))))))"

text \<open>The \<^verbatim>\<open>forEach\<close> over the contacts: records are pushed in order, and an exception
  thrown by the body leaves the loop.\<close>

fun forEachContact ::
  "(Contact \<Rightarrow> error + ContactWithDueInfo option) \<Rightarrow> Contact list
     \<Rightarrow> ContactWithDueInfo list \<Rightarrow> error + ContactWithDueInfo list" where
  "forEachContact body [] allDueContacts = Inr allDueContacts"
| "forEachContact body (contact # rest) allDueContacts =
     (case body contact of
        Inl e \<Rightarrow> Inl e
      | Inr None \<Rightarrow> forEachContact body rest allDueContacts
      | Inr (Some r) \<Rightarrow> forEachContact body rest (allDueContacts @ [r]))"

text \<open>\<^verbatim>\<open>Array.prototype.sort(compareFn)\<close> is a stable sort: \<open>a\<close> comes before \<open>b\<close> when
  \<^verbatim>\<open>compareFn(a, b) < 0\<close>, and elements that compare as 0 keep their order. For a
  consistent comparator that result is unique, and a stable insertion sort computes it.\<close>

fun insort_cmp :: "('a \<Rightarrow> 'a \<Rightarrow> int) \<Rightarrow> 'a \<Rightarrow> 'a list \<Rightarrow> 'a list" where
  "insort_cmp compareFn x [] = [x]"
| "insort_cmp compareFn x (y # ys) =
     (if compareFn x y \<le> 0 then x # y # ys else y # insort_cmp compareFn x ys)"

definition sort_cmp :: "('a \<Rightarrow> 'a \<Rightarrow> int) \<Rightarrow> 'a list \<Rightarrow> 'a list" where
  "sort_cmp compareFn xs = foldr (insort_cmp compareFn) xs []"

text \<open>The comparator of the due-today list. \<^verbatim>\<open>String.prototype.localeCompare\<close> belongs to
  the JavaScript runtime and its locale data; it is a parameter of the model.
  \<^verbatim>\<open>
  (a, b) => {
    // Rollovers first, then by days overdue, then by account name
    if (a.is_rollover !== b.is_rollover) return a.is_rollover ? -1 : 1;
    if (a.days_overdue !== b.days_overdue) return b.days_overdue - a.days_overdue;
    return a.health_system.name.localeCompare(b.health_system.name);
  }\<close>\<close>

definition compareToday ::
  "(string \<Rightarrow> string \<Rightarrow> int) \<Rightarrow> ContactWithDueInfo \<Rightarrow> ContactWithDueInfo \<Rightarrow> int" where
  "compareToday localeCompare a b =
     (if is_rollover a \<noteq> is_rollover b then (if is_rollover a then - 1 else 1)
      else if days_overdue a \<noteq> days_overdue b then days_overdue b - days_overdue a
      else localeCompare (hs_name (health_system a)) (hs_name (health_system b)))"

text \<open>\<^verbatim>\<open>(a, b) => a.health_system.name.localeCompare(b.health_system.name)\<close>\<close>

definition compareAccount ::
  "(string \<Rightarrow> string \<Rightarrow> int) \<Rightarrow> ContactWithDueInfo \<Rightarrow> ContactWithDueInfo \<Rightarrow> int" where
  "compareAccount localeCompare a b =
     localeCompare (hs_name (health_system a)) (hs_name (health_system b))"

text \<open>The two filters re-read the due date from the string stored in the record.
  \<^verbatim>\<open>
  c => { const dueDate = new Date(c.due_date); dueDate.setHours(0, 0, 0, 0);
         return dueDate <= today; }
  c => { const dueDate = new Date(c.due_date); dueDate.setHours(0, 0, 0, 0);
         return formatDate(dueDate) === formatDate(nextBizDay); }\<close>\<close>

definition isDueToday :: "int \<Rightarrow> Date \<Rightarrow> ContactWithDueInfo \<Rightarrow> bool" where
  "isDueToday tz today c = (let dueDate = setHours0 tz (newDate (due_date c)) in num_le dueDate today)"

definition isDueNextDay :: "int \<Rightarrow> Date \<Rightarrow> ContactWithDueInfo \<Rightarrow> bool" where
  "isDueNextDay tz nextBizDay c =
     (let dueDate = setHours0 tz (newDate (due_date c))
      in formatDate dueDate = formatDate nextBizDay)"

text \<open>\<^verbatim>\<open>fetchData\<close>. Its inputs are the offset of the local time zone, the runtime's
  \<^verbatim>\<open>localeCompare\<close>, the current time \<^verbatim>\<open>new Date()\<close> and the results of the three
  queries (\<open>contactsData\<close> is whatever the store returns for the contacts of the prospect
  opportunities). The result is the state it sets, or the exception it ends with.\<close>

definition fetchData ::
  "int \<Rightarrow> (string \<Rightarrow> string \<Rightarrow> int) \<Rightarrow> int \<Rightarrow> Opportunity list option \<Rightarrow> Contact list option
     \<Rightarrow> OutreachLog list option \<Rightarrow> error + TodoState" where
  "fetchData tz localeCompare now allOppsData contactsData logsData =
     (let today = setHours0 tz (Num now);
          isBizDay = isBusinessDay tz today;
          nextBizDay = getNextBusinessDay tz today;
          oppsData = filter isProspect (orEmpty allOppsData);
          prospectOppIds = map opp_id oppsData
      in if length prospectOppIds = 0
         then Inr \<lparr>todayContacts = [], nextDayContacts = [],
                   nextBusinessDay = nextBizDay, isBusinessDayToday = isBizDay\<rparr>
         else
           (let oppsMap = buildOppsMap oppsData;
                lastOutreach = buildLastOutreach (orEmpty logsData)
            in case forEachContact (dueInfo tz today isBizDay nextBizDay oppsMap lastOutreach)
                      (orEmpty contactsData) [] of
                 Inl e \<Rightarrow> Inl e
               | Inr allDueContacts \<Rightarrow>
                   Inr \<lparr>todayContacts =
                          sort_cmp (compareToday localeCompare)
                            (filter (isDueToday tz today) allDueContacts),
                        nextDayContacts =
                          sort_cmp (compareAccount localeCompare)
                            (filter (isDueNextDay tz nextBizDay) allDueContacts),
                        nextBusinessDay = nextBizDay, isBusinessDayToday = isBizDay\<rparr>))"

section \<open>A comparator to run the engine with\<close>

text \<open>Modelled from the spec: \<^verbatim>\<open>String.prototype.localeCompare\<close> is the runtime's, not the
  repository's. The spec calls the comparison of account names a "case-insensitive lexical
  compare"; \<open>ciCompare\<close> is that comparison, on the character codes with the letters
  \<^verbatim>\<open>A\<close> to \<^verbatim>\<open>Z\<close> folded to lower case. It is used only to run the engine on concrete
  inputs: the theorems about the engine hold for every consistent comparator.\<close>

definition toLowerCode :: "char \<Rightarrow> nat" where
  "toLowerCode c = (let n = of_char c in if 65 \<le> n \<and> n \<le> 90 then n + 32 else n)"

fun lexCompare :: "nat list \<Rightarrow> nat list \<Rightarrow> int" where
  "lexCompare [] [] = 0"
| "lexCompare [] (y # ys) = - 1"
| "lexCompare (x # xs) [] = 1"
| "lexCompare (x # xs) (y # ys) =
     (if x < y then - 1 else if y < x then 1 else lexCompare xs ys)"

definition ciCompare :: "string \<Rightarrow> string \<Rightarrow> int" where
  "ciCompare a b = lexCompare (map toLowerCode a) (map toLowerCode b)"

section \<open>Sample data\<close>

text \<open>Concrete inputs on which the theorems below are run. Day 19737 is Monday
  2024-01-15; 19712, 19718, 19723, 19724 and 19725 are Thursday 2023-12-21, Wednesday
  2023-12-27, Monday 2024-01-01, Tuesday 2024-01-02 and Wednesday 2024-01-03; 19722, 19727,
  19730 and 19735 are Sunday 2023-12-31, Friday 2024-01-05, Monday 2024-01-08 and Saturday
  2024-01-13.

  The first data set is used at 10:00 on 2024-01-15 in a time zone five hours behind UTC
  (\<open>tz = - 18000000\<close>, \<open>now = 1705330800000\<close>): a contacted contact of a prospect
  opportunity, a contact of a won opportunity, and a contact never contacted.\<close>

definition sampleOpps :: "Opportunity list" where
  "sampleOpps =
     [\<lparr>opp_id = ''o1'', status = Some ''prospect'', health_systems = \<lparr>hs_name = ''Mercy''\<rparr>\<rparr>,
      \<lparr>opp_id = ''o2'', status = Some ''won'', health_systems = \<lparr>hs_name = ''Alpha''\<rparr>\<rparr>]"

definition sampleContacts :: "Contact list" where
  "sampleContacts =
     [\<lparr>con_id = ''c1'', con_name = ''Ann'', opportunity_id = Some ''o1'', cadence_days = Some 10\<rparr>,
      \<lparr>con_id = ''c2'', con_name = ''Bob'', opportunity_id = Some ''o2'', cadence_days = Some 10\<rparr>,
      \<lparr>con_id = ''c3'', con_name = ''Cy'', opportunity_id = Some ''o1'', cadence_days = None\<rparr>]"

definition sampleLogs :: "OutreachLog list" where
  "sampleLogs =
     [\<lparr>contact_id = ''c1'', contact_date = IsoDate 19725, contact_method = ''email''\<rparr>,
      \<lparr>contact_id = ''c2'', contact_date = IsoDate 19725, contact_method = ''call''\<rparr>]"

text \<open>The same logs with an unreadable date on the first.\<close>

definition malformedLogs :: "OutreachLog list" where
  "malformedLogs =
     [\<lparr>contact_id = ''c1'', contact_date = NotADate, contact_method = ''email''\<rparr>,
      \<lparr>contact_id = ''c2'', contact_date = IsoDate 19725, contact_method = ''call''\<rparr>]"

text \<open>The first contact with a negative cadence, as corrupt upstream data would have it.\<close>

definition negativeCadenceContacts :: "Contact list" where
  "negativeCadenceContacts =
     [\<lparr>con_id = ''c1'', con_name = ''Ann'', opportunity_id = Some ''o1'', cadence_days = Some (- 5)\<rparr>]"

text \<open>A contact with cadence 5 whose latest outreach was logged on Monday 2024-01-01; used
  at 10:00 on Monday 2024-01-08, five hours behind UTC (\<open>now = 1704726000000\<close>) and in UTC
  (\<open>now = 1704708000000\<close>).\<close>

definition mondayContacts :: "Contact list" where
  "mondayContacts =
     [\<lparr>con_id = ''c1'', con_name = ''Ann'', opportunity_id = Some ''o1'', cadence_days = Some 5\<rparr>]"

definition mondayLogs :: "OutreachLog list" where
  "mondayLogs =
     [\<lparr>contact_id = ''c1'', contact_date = IsoDate 19723, contact_method = ''call''\<rparr>]"

text \<open>The second data set is used at 10:00 UTC on 2024-01-15 in UTC (\<open>tz = 0\<close>,
  \<open>now = 1705312800000\<close>): six contacts at six accounts, two of them overdue by 3 and by
  7 business days, two due today, two due on the next business day.\<close>

definition orderingOpps :: "Opportunity list" where
  "orderingOpps =
     [\<lparr>opp_id = ''o1'', status = Some ''prospect'', health_systems = \<lparr>hs_name = ''Zeta Health''\<rparr>\<rparr>,
      \<lparr>opp_id = ''o2'', status = None, health_systems = \<lparr>hs_name = ''alpha care''\<rparr>\<rparr>,
      \<lparr>opp_id = ''o3'', status = Some ''prospect'', health_systems = \<lparr>hs_name = ''Beta Clinic''\<rparr>\<rparr>,
      \<lparr>opp_id = ''o4'', status = Some ''prospect'', health_systems = \<lparr>hs_name = ''acme''\<rparr>\<rparr>,
      \<lparr>opp_id = ''o5'', status = Some ''prospect'', health_systems = \<lparr>hs_name = ''Mercy''\<rparr>\<rparr>,
      \<lparr>opp_id = ''o6'', status = Some ''prospect'', health_systems = \<lparr>hs_name = ''delta''\<rparr>\<rparr>]"

definition orderingContacts :: "Contact list" where
  "orderingContacts =
     [\<lparr>con_id = ''c1'', con_name = ''Ann'', opportunity_id = Some ''o1'', cadence_days = Some 10\<rparr>,
      \<lparr>con_id = ''c2'', con_name = ''Bob'', opportunity_id = Some ''o2'', cadence_days = Some 10\<rparr>,
      \<lparr>con_id = ''c3'', con_name = ''Cy'', opportunity_id = Some ''o3'', cadence_days = Some 10\<rparr>,
      \<lparr>con_id = ''c4'', con_name = ''Di'', opportunity_id = Some ''o4'', cadence_days = None\<rparr>,
      \<lparr>con_id = ''c5'', con_name = ''Ed'', opportunity_id = Some ''o5'', cadence_days = Some 10\<rparr>,
      \<lparr>con_id = ''c6'', con_name = ''Flo'', opportunity_id = Some ''o6'', cadence_days = Some 10\<rparr>]"

definition orderingLogs :: "OutreachLog list" where
  "orderingLogs =
     [\<lparr>contact_id = ''c5'', contact_date = IsoDate 19724, contact_method = ''call''\<rparr>,
      \<lparr>contact_id = ''c6'', contact_date = IsoDate 19724, contact_method = ''email''\<rparr>,
      \<lparr>contact_id = ''c3'', contact_date = IsoDate 19723, contact_method = ''email''\<rparr>,
      \<lparr>contact_id = ''c1'', contact_date = IsoDate 19718, contact_method = ''email''\<rparr>,
      \<lparr>contact_id = ''c2'', contact_date = IsoDate 19712, contact_method = ''call''\<rparr>]"

section \<open>Properties of the calendar\<close>

text \<open>The loops are unfolded one iteration at a time, never by the simplifier on its own.\<close>

declare getNextBusinessDay_while.simps [simp del]

declare countBusinessDays_while.simps [simp del]

declare addBusinessDays_while.simps [simp del]

lemma setDateNext_Num [simp]: "setDateNext tz (Num t) = Num (t + msPerDay)"
  by (simp add: setDateNext_def UTC_def LocalTime_def)

lemma setDateNext_NaN [simp]: "setDateNext tz NaN = NaN"
  by (simp add: setDateNext_def)

lemma isBusinessDay_NaN [simp]: "isBusinessDay tz NaN"
  by (simp add: isBusinessDay_def getDay_def)

lemma isBusinessDay_Num:
  "isBusinessDay tz (Num t) = (WeekDay (LocalTime tz t) \<noteq> 0 \<and> WeekDay (LocalTime tz t) \<noteq> 6)"
  by (simp add: isBusinessDay_def getDay_def)

lemma WeekDay_range: "0 \<le> WeekDay t" "WeekDay t < 7"
  by (simp_all add: WeekDay_def)

lemma Day_add_days: "Day (t + k * msPerDay) = Day t + k"
  by (simp add: Day_def msPerDay_def)

lemma WeekDay_add_days: "WeekDay (t + k * msPerDay) = (WeekDay t + k) mod 7"
  unfolding WeekDay_def Day_add_days by presburger

lemma WeekDay_LocalTime_add_days:
  "WeekDay (LocalTime tz (t + k * msPerDay)) = (WeekDay (LocalTime tz t) + k) mod 7"
proof -
  have "LocalTime tz (t + k * msPerDay) = LocalTime tz t + k * msPerDay"
    by (simp add: LocalTime_def)
  then show ?thesis by (simp add: WeekDay_add_days)
qed

lemma WeekDay_LocalTime_next:
  "WeekDay (LocalTime tz (t + msPerDay)) = (WeekDay (LocalTime tz t) + 1) mod 7"
  using WeekDay_LocalTime_add_days [of tz t 1] by simp

lemma WeekDay_cases:
  "WeekDay t = 0 \<or> WeekDay t = 1 \<or> WeekDay t = 2 \<or> WeekDay t = 3 \<or> WeekDay t = 4
    \<or> WeekDay t = 5 \<or> WeekDay t = 6"
  using WeekDay_range [of t] by presburger

lemma getNextBusinessDay_while_stop:
  "isBusinessDay tz d \<Longrightarrow> getNextBusinessDay_while tz d = d"
  by (subst getNextBusinessDay_while.simps) simp

lemma getNextBusinessDay_while_step:
  "\<not> isBusinessDay tz (Num (t + k * msPerDay)) \<Longrightarrow>
     getNextBusinessDay_while tz (Num (t + k * msPerDay)) =
     getNextBusinessDay_while tz (Num (t + (k + 1) * msPerDay))"
  by (subst getNextBusinessDay_while.simps) (simp add: algebra_simps)

lemma isBusinessDay_add_days:
  "isBusinessDay tz (Num (t + k * msPerDay)) =
     ((WeekDay (LocalTime tz t) + k) mod 7 \<noteq> 0 \<and> (WeekDay (LocalTime tz t) + k) mod 7 \<noteq> 6)"
  by (simp add: isBusinessDay_Num WeekDay_LocalTime_add_days)

lemma getNextBusinessDay_Num:
  "getNextBusinessDay tz (Num t) =
     Num (t + (if WeekDay (LocalTime tz t) = 5 then 3
               else if WeekDay (LocalTime tz t) = 6 then 2 else 1) * msPerDay)"
proof -
  let ?w = "WeekDay (LocalTime tz t)"
  have start: "getNextBusinessDay tz (Num t) = getNextBusinessDay_while tz (Num (t + 1 * msPerDay))"
    by (simp add: getNextBusinessDay_def)
  consider "?w = 5" | "?w = 6" | "?w = 0 \<or> ?w = 1 \<or> ?w = 2 \<or> ?w = 3 \<or> ?w = 4"
    using WeekDay_cases [of "LocalTime tz t"] by blast
  then show ?thesis
  proof cases
    case 1
    have "\<not> isBusinessDay tz (Num (t + 1 * msPerDay))" "\<not> isBusinessDay tz (Num (t + 2 * msPerDay))"
      "isBusinessDay tz (Num (t + 3 * msPerDay))"
      using 1 isBusinessDay_add_days [of tz t 1] isBusinessDay_add_days [of tz t 2]
        isBusinessDay_add_days [of tz t 3] by simp_all
    then have "getNextBusinessDay_while tz (Num (t + 1 * msPerDay)) = Num (t + 3 * msPerDay)"
      using getNextBusinessDay_while_step [of tz t 1] getNextBusinessDay_while_step [of tz t 2]
        getNextBusinessDay_while_stop [of tz "Num (t + 3 * msPerDay)"]
      by simp
    then show ?thesis using 1 start by simp
  next
    case 2
    have "\<not> isBusinessDay tz (Num (t + 1 * msPerDay))" "isBusinessDay tz (Num (t + 2 * msPerDay))"
      using 2 isBusinessDay_add_days [of tz t 1] isBusinessDay_add_days [of tz t 2] by simp_all
    then have "getNextBusinessDay_while tz (Num (t + 1 * msPerDay)) = Num (t + 2 * msPerDay)"
      using getNextBusinessDay_while_step [of tz t 1]
        getNextBusinessDay_while_stop [of tz "Num (t + 2 * msPerDay)"]
      by simp
    then show ?thesis using 2 start by simp
  next
    case 3
    then have "isBusinessDay tz (Num (t + 1 * msPerDay))"
      using isBusinessDay_add_days [of tz t 1] by auto
    then have "getNextBusinessDay_while tz (Num (t + 1 * msPerDay)) = Num (t + 1 * msPerDay)"
      by (rule getNextBusinessDay_while_stop)
    then show ?thesis using 3 start by auto
  qed
qed

lemma addBusinessDays_nonpos: "n \<le> 0 \<Longrightarrow> addBusinessDays tz d n = d"
  by (simp add: addBusinessDays_def addBusinessDays_while.simps)

lemma countBusinessDays_while_stop:
  "\<not> num_le c e \<Longrightarrow> countBusinessDays_while tz c e n = n"
  by (subst countBusinessDays_while.simps) simp

lemma countBusinessDays_while_step:
  "c \<le> e \<Longrightarrow>
     countBusinessDays_while tz (Num c) (Num e) n =
     countBusinessDays_while tz (Num (c + msPerDay)) (Num e)
       (if isBusinessDay tz (Num c) then n + 1 else n)"
  by (subst countBusinessDays_while.simps) simp

lemma days_upward_induct [case_names beyond step]:
  fixes s e m :: int
  assumes beyond: "\<And>m. e < s + m * msPerDay \<Longrightarrow> Q m"
    and step: "\<And>m. s + m * msPerDay \<le> e \<Longrightarrow> Q (m + 1) \<Longrightarrow> Q m"
  shows "Q m"
proof (induction "nat (e - (s + m * msPerDay) + 1)" arbitrary: m rule: less_induct)
  case less
  show ?case
  proof (cases "s + m * msPerDay \<le> e")
    case True
    have "nat (e - (s + (m + 1) * msPerDay) + 1) < nat (e - (s + m * msPerDay) + 1)"
      using True by (simp add: msPerDay_def algebra_simps)
    then have "Q (m + 1)" by (rule less)
    with True show ?thesis by (rule step)
  next
    case False
    then show ?thesis by (simp add: beyond)
  qed
qed

lemma finite_days_upto:
  fixes s e m :: int
  shows "finite {i. m \<le> i \<and> s + i * msPerDay \<le> e \<and> P i}"
proof -
  have "{i. m \<le> i \<and> s + i * msPerDay \<le> e \<and> P i} \<subseteq> {m .. \<bar>e - s\<bar>}"
  proof
    fix i assume "i \<in> {i. m \<le> i \<and> s + i * msPerDay \<le> e \<and> P i}"
    then have a: "m \<le> i" "s + i * msPerDay \<le> e" by simp_all
    have "i \<le> i * msPerDay \<or> i < 0" unfolding msPerDay_def by linarith
    then have "i \<le> \<bar>e - s\<bar>" using a by linarith
    with a show "i \<in> {m .. \<bar>e - s\<bar>}" by simp
  qed
  then show ?thesis by (rule finite_subset) simp
qed

lemma countBusinessDays_while_closed:
  "countBusinessDays_while tz (Num (s + m * msPerDay)) (Num e) n =
     n + int (card {i. m \<le> i \<and> s + i * msPerDay \<le> e \<and> isBusinessDay tz (Num (s + i * msPerDay))})"
proof (induction m arbitrary: n rule: days_upward_induct [where s = s and e = e])
  case (beyond m)
  have emp: "{i. m \<le> i \<and> s + i * msPerDay \<le> e \<and> isBusinessDay tz (Num (s + i * msPerDay))} = {}"
  proof -
    have "\<And>i. m \<le> i \<Longrightarrow> s + m * msPerDay \<le> s + i * msPerDay"
      by (simp add: msPerDay_def)
    with beyond show ?thesis by fastforce
  qed
  have "countBusinessDays_while tz (Num (s + m * msPerDay)) (Num e) n = n"
    using beyond by (simp add: countBusinessDays_while_stop)
  then show ?case unfolding emp by simp
next
  case (step m)
  let ?P = "\<lambda>i. s + i * msPerDay \<le> e \<and> isBusinessDay tz (Num (s + i * msPerDay))"
  have split: "{i. m \<le> i \<and> ?P i} = (if isBusinessDay tz (Num (s + m * msPerDay)) then {m} else {}) \<union> {i. m + 1 \<le> i \<and> ?P i}"
    using step.hyps by (auto simp add: order_le_less)
  have fin: "finite {i. m + 1 \<le> i \<and> ?P i}" by (rule finite_days_upto)
  have card: "int (card {i. m \<le> i \<and> ?P i}) =
        (if isBusinessDay tz (Num (s + m * msPerDay)) then 1 else 0) + int (card {i. m + 1 \<le> i \<and> ?P i})"
    unfolding split using fin by simp
  have "countBusinessDays_while tz (Num (s + m * msPerDay)) (Num e) n =
        countBusinessDays_while tz (Num (s + (m + 1) * msPerDay)) (Num e)
          (if isBusinessDay tz (Num (s + m * msPerDay)) then n + 1 else n)"
    using step.hyps by (simp add: countBusinessDays_while_step algebra_simps)
  also have "\<dots> = (if isBusinessDay tz (Num (s + m * msPerDay)) then n + 1 else n) +
        int (card {i. m + 1 \<le> i \<and> ?P i})"
    by (rule step.IH)
  finally show ?case using card by simp
qed

lemma countBusinessDays_closed:
  "countBusinessDays tz (Num s) (Num e) =
     int (card {i. 1 \<le> i \<and> s + i * msPerDay \<le> e \<and> isBusinessDay tz (Num (s + i * msPerDay))})"
  using countBusinessDays_while_closed [of tz s 1 e 0] by (simp add: countBusinessDays_def)

lemma countBusinessDays_NaN [simp]:
  "countBusinessDays tz NaN e = 0" "countBusinessDays tz s NaN = 0"
  by (simp_all add: countBusinessDays_def countBusinessDays_while_stop)

lemma localMidnight_add: "localMidnight tz 0 + i * msPerDay = localMidnight tz i"
  by (simp add: localMidnight_def UTC_def)

lemma localMidnight_next: "localMidnight tz a + msPerDay = localMidnight tz (a + 1)"
  by (simp add: localMidnight_def UTC_def algebra_simps)

lemma localMidnight_le [simp]: "(localMidnight tz a \<le> localMidnight tz b) = (a \<le> b)"
  by (simp add: localMidnight_def UTC_def msPerDay_def)

lemma localMidnight_less [simp]: "(localMidnight tz a < localMidnight tz b) = (a < b)"
  by (simp add: localMidnight_def UTC_def msPerDay_def)

lemma Day_localMidnight [simp]: "Day (LocalTime tz (localMidnight tz d)) = d"
  by (simp add: localMidnight_def UTC_def LocalTime_def Day_def msPerDay_def)

lemma setHours0_Num: "setHours0 tz (Num t) = Num (localMidnight tz (Day (LocalTime tz t)))"
  by (simp add: setHours0_def localMidnight_def)

lemma countBusinessDays_localMidnight:
  "countBusinessDays tz (Num (localMidnight tz a)) (Num (localMidnight tz b)) =
     int (card {d. a < d \<and> d \<le> b \<and> isBusinessDay tz (Num (localMidnight tz d))})"
proof -
  have "countBusinessDays tz (Num (localMidnight tz a)) (Num (localMidnight tz b)) =
        countBusinessDays_while tz (Num (localMidnight tz 0 + (a + 1) * msPerDay))
          (Num (localMidnight tz b)) 0"
    by (simp add: countBusinessDays_def localMidnight_add localMidnight_next)
  also have "\<dots> = int (card {i. a + 1 \<le> i \<and> localMidnight tz 0 + i * msPerDay \<le> localMidnight tz b
                \<and> isBusinessDay tz (Num (localMidnight tz 0 + i * msPerDay))})"
    by (simp add: countBusinessDays_while_closed)
  also have "{i. a + 1 \<le> i \<and> localMidnight tz 0 + i * msPerDay \<le> localMidnight tz b
                \<and> isBusinessDay tz (Num (localMidnight tz 0 + i * msPerDay))} =
             {d. a < d \<and> d \<le> b \<and> isBusinessDay tz (Num (localMidnight tz d))}"
    by (auto simp add: localMidnight_add)
  finally show ?thesis .
qed

lemma countBusinessDays_not_after:
  assumes "num_le e s"
  shows "countBusinessDays tz s e = 0"
proof -
  obtain x y where xy: "e = Num x" "s = Num y" "x \<le> y"
    using assms by (cases e; cases s) simp_all
  have "\<not> num_le (setDateNext tz s) e"
    using xy by (simp add: msPerDay_def)
  then show ?thesis by (simp add: countBusinessDays_def countBusinessDays_while_stop)
qed

lemma countBusinessDays_mono:
  assumes "num_le e e'"
  shows "countBusinessDays tz s e \<le> countBusinessDays tz s e'"
proof (cases s)
  case NaN
  then show ?thesis by simp
next
  case (Num t)
  obtain x y where xy: "e = Num x" "e' = Num y" "x \<le> y"
    using assms by (cases e; cases e') simp_all
  let ?A = "\<lambda>z. {i. 1 \<le> i \<and> t + i * msPerDay \<le> z \<and> isBusinessDay tz (Num (t + i * msPerDay))}"
  have "?A x \<subseteq> ?A y" using xy by auto
  moreover have "finite (?A y)" by (rule finite_days_upto)
  ultimately have "card (?A x) \<le> card (?A y)" by (rule card_mono [rotated])
  then show ?thesis using Num xy by (simp add: countBusinessDays_closed)
qed

lemma addBusinessDays_while_stop:
  "\<not> a < n \<Longrightarrow> addBusinessDays_while tz r a n = r"
  by (subst addBusinessDays_while.simps) simp

lemma addBusinessDays_while_step:
  "a < n \<Longrightarrow>
     addBusinessDays_while tz (Num t) a n =
     addBusinessDays_while tz (Num (t + msPerDay))
       (if isBusinessDay tz (Num (t + msPerDay)) then a + 1 else a) n"
  by (subst addBusinessDays_while.simps) (simp add: Let_def)

lemma addBusinessDays_while_NaN:
  "addBusinessDays_while tz NaN a n = NaN"
proof (induction tz "NaN :: number" a n rule: addBusinessDays_while.induct)
  case (1 tz daysAdded businessDays)
  show ?case
  proof (cases "daysAdded < businessDays")
    case True
    then show ?thesis
      using 1 by (subst addBusinessDays_while.simps) (simp add: Let_def)
  next
    case False
    then show ?thesis by (simp add: addBusinessDays_while_stop)
  qed
qed

lemma addBusinessDays_while_count:
  "a \<le> n \<Longrightarrow>
   \<exists>j\<ge>0. addBusinessDays_while tz (Num t) a n = Num (t + j * msPerDay)
     \<and> (\<forall>c. countBusinessDays_while tz (Num (t + msPerDay)) (Num (t + j * msPerDay)) c = c + (n - a))
     \<and> (a < n \<longrightarrow> 1 \<le> j \<and> isBusinessDay tz (Num (t + j * msPerDay)))"
proof (induction tz "Num t" a n arbitrary: t rule: addBusinessDays_while.induct)
  case (1 tz daysAdded businessDays)
  show ?case
  proof (cases "daysAdded < businessDays")
    case False
    then have eq: "daysAdded = businessDays" using "1.prems" by simp
    have "addBusinessDays_while tz (Num t) daysAdded businessDays = Num (t + 0 * msPerDay)"
      using False by (simp add: addBusinessDays_while_stop)
    moreover have "\<forall>c. countBusinessDays_while tz (Num (t + msPerDay)) (Num (t + 0 * msPerDay)) c
                     = c + (businessDays - daysAdded)"
      using eq by (simp add: countBusinessDays_while_stop msPerDay_def)
    ultimately show ?thesis using False by (intro exI [of _ 0]) simp
  next
    case True
    let ?b = "isBusinessDay tz (Num (t + msPerDay))"
    let ?a' = "if ?b then daysAdded + 1 else daysAdded"
    have le: "?a' \<le> businessDays" using True by simp
    have "\<exists>j\<ge>0. addBusinessDays_while tz (Num (t + msPerDay)) ?a' businessDays
              = Num (t + msPerDay + j * msPerDay)
        \<and> (\<forall>c. countBusinessDays_while tz (Num (t + msPerDay + msPerDay))
                  (Num (t + msPerDay + j * msPerDay)) c = c + (businessDays - ?a'))
        \<and> (?a' < businessDays \<longrightarrow> 1 \<le> j \<and> isBusinessDay tz (Num (t + msPerDay + j * msPerDay)))"
    proof (rule "1.hyps" [of "t + msPerDay"])
      show "daysAdded < businessDays" by (rule True)
      show "Num (t + msPerDay) = setDateNext tz (Num t)" by simp
      show "?a' \<le> businessDays" by (rule le)
    qed
    then obtain j where j: "0 \<le> j"
      "addBusinessDays_while tz (Num (t + msPerDay)) ?a' businessDays = Num (t + msPerDay + j * msPerDay)"
      "\<And>c. countBusinessDays_while tz (Num (t + msPerDay + msPerDay))
                  (Num (t + msPerDay + j * msPerDay)) c = c + (businessDays - ?a')"
      "?a' < businessDays \<Longrightarrow> 1 \<le> j \<and> isBusinessDay tz (Num (t + msPerDay + j * msPerDay))"
      by blast
    have shift: "t + msPerDay + j * msPerDay = t + (j + 1) * msPerDay"
      by (simp add: algebra_simps)
    have r: "addBusinessDays_while tz (Num t) daysAdded businessDays = Num (t + (j + 1) * msPerDay)"
      using True j(2) by (simp add: addBusinessDays_while_step shift)
    have first: "t + msPerDay \<le> t + (j + 1) * msPerDay"
      using j(1) by (simp add: msPerDay_def)
    have c: "countBusinessDays_while tz (Num (t + msPerDay)) (Num (t + (j + 1) * msPerDay)) c
               = c + (businessDays - daysAdded)" for c
    proof -
      have "countBusinessDays_while tz (Num (t + msPerDay)) (Num (t + (j + 1) * msPerDay)) c
            = countBusinessDays_while tz (Num (t + msPerDay + msPerDay)) (Num (t + (j + 1) * msPerDay))
                (if ?b then c + 1 else c)"
        using first by (rule countBusinessDays_while_step)
      also have "\<dots> = (if ?b then c + 1 else c) + (businessDays - ?a')"
        using j(3) [of "if ?b then c + 1 else c"] by (simp only: shift)
      finally show ?thesis by simp
    qed
    have b: "isBusinessDay tz (Num (t + (j + 1) * msPerDay))"
    proof (cases "?a' < businessDays")
      case True
      then show ?thesis using j(4) by (simp only: shift)
    next
      case False
      then have full: "?a' = businessDays" using le by simp
      then have "?b" using True by (simp split: if_splits)
      moreover have "addBusinessDays_while tz (Num (t + msPerDay)) ?a' businessDays = Num (t + msPerDay)"
        using False by (rule addBusinessDays_while_stop)
      then have "j = 0" using j(2) by (simp add: msPerDay_def)
      ultimately show ?thesis by simp
    qed
    show ?thesis
      using r c b j(1) by (intro exI [of _ "j + 1"]) simp
  qed
qed

text \<open>Rewrite rules that evaluate the calendar on concrete Dates: the loops are run
  through their one-iteration lemmas.\<close>

lemmas calendar_eval = isBusinessDay_def getDay_def WeekDay_def Day_def LocalTime_def UTC_def
  msPerDay_def setDateNext_def setHours0_def localMidnight_def dayOfWeek_def weekdayOf_def

lemmas loop_eval = addBusinessDays_def addBusinessDays_while_step addBusinessDays_while_stop
  countBusinessDays_def countBusinessDays_while_step countBusinessDays_while_stop
  getNextBusinessDay_Num

lemma weekdayOf_WeekDay:
  "(weekdayOf (WeekDay t) = Sunday) = (WeekDay t = 0)"
  "(weekdayOf (WeekDay t) = Saturday) = (WeekDay t = 6)"
  "(weekdayOf (WeekDay t) = Monday) = (WeekDay t = 1)"
  "(weekdayOf (WeekDay t) = Tuesday) = (WeekDay t = 2)"
  "(weekdayOf (WeekDay t) = Wednesday) = (WeekDay t = 3)"
  "(weekdayOf (WeekDay t) = Thursday) = (WeekDay t = 4)"
  "(weekdayOf (WeekDay t) = Friday) = (WeekDay t = 5)"
  using WeekDay_range [of t] by (simp_all add: weekdayOf_def)

lemma countBusinessDays_nonneg: "0 \<le> countBusinessDays tz s e"
proof (cases s)
  case NaN
  then show ?thesis by simp
next
  case s: (Num x)
  show ?thesis
  proof (cases e)
    case NaN
    then show ?thesis by simp
  next
    case (Num y)
    then show ?thesis using s by (simp add: countBusinessDays_closed)
  qed
qed

lemma countBusinessDays_le_days:
  "countBusinessDays tz (Num x) (Num y) \<le> max 0 ((y - x) div msPerDay)"
proof -
  let ?A = "{i. 1 \<le> i \<and> x + i * msPerDay \<le> y \<and> isBusinessDay tz (Num (x + i * msPerDay))}"
  have "?A \<subseteq> {1 .. (y - x) div msPerDay}"
  proof
    fix i assume "i \<in> ?A"
    then have a: "1 \<le> i" "i * msPerDay \<le> y - x" by simp_all
    have "(i * msPerDay) div msPerDay \<le> (y - x) div msPerDay"
      using a(2) by (rule zdiv_mono1) (simp add: msPerDay_def)
    then have "i \<le> (y - x) div msPerDay" by (simp add: msPerDay_def)
    with a show "i \<in> {1 .. (y - x) div msPerDay}" by simp
  qed
  then have "card ?A \<le> card {1 .. (y - x) div msPerDay}"
    by (rule card_mono [rotated]) simp
  then show ?thesis by (simp add: countBusinessDays_closed)
qed

lemma getNextBusinessDay_NaN [simp]: "getNextBusinessDay tz NaN = NaN"
  by (simp add: getNextBusinessDay_def getNextBusinessDay_while_stop)

lemma getNextBusinessDay_isBusinessDay: "isBusinessDay tz (getNextBusinessDay tz d)"
proof (cases d)
  case NaN
  then show ?thesis by simp
next
  case (Num t)
  have "isBusinessDay tz (Num (t + (if WeekDay (LocalTime tz t) = 5 then 3
               else if WeekDay (LocalTime tz t) = 6 then 2 else 1) * msPerDay))"
    using WeekDay_cases [of "LocalTime tz t"] isBusinessDay_add_days [of tz t 1]
      isBusinessDay_add_days [of tz t 2] isBusinessDay_add_days [of tz t 3]
    by auto
  then show ?thesis using Num by (simp only: getNextBusinessDay_Num)
qed

lemma localMidnight_add_days: "localMidnight tz d + j * msPerDay = localMidnight tz (d + j)"
  by (simp add: localMidnight_def UTC_def algebra_simps)

lemma localMidnight_eq: "(localMidnight tz a = localMidnight tz b) = (a = b)"
  by (simp add: localMidnight_def UTC_def msPerDay_def)

lemma getNextBusinessDay_localMidnight:
  "\<exists>j. 1 \<le> j \<and> j \<le> 3
     \<and> getNextBusinessDay tz (Num (localMidnight tz d)) = Num (localMidnight tz (d + j))
     \<and> isBusinessDay tz (Num (localMidnight tz (d + j)))
     \<and> (\<forall>i. 1 \<le> i \<and> i < j \<longrightarrow> \<not> isBusinessDay tz (Num (localMidnight tz (d + i))))"
proof -
  let ?t = "localMidnight tz d"
  let ?w = "WeekDay (LocalTime tz ?t)"
  define j :: int where "j = (if ?w = 5 then 3 else if ?w = 6 then 2 else 1)"
  have j: "1 \<le> j" "j \<le> 3" by (simp_all add: j_def)
  have n: "getNextBusinessDay tz (Num ?t) = Num (localMidnight tz (d + j))"
    by (simp only: getNextBusinessDay_Num localMidnight_add_days j_def)
  have b: "isBusinessDay tz (Num (localMidnight tz (d + j)))"
    using getNextBusinessDay_isBusinessDay [of tz "Num ?t"] by (simp only: n)
  have e: "\<not> isBusinessDay tz (Num (localMidnight tz (d + i)))" if i: "1 \<le> i" "i < j" for i
  proof -
    have w: "?w = 5 \<and> (i = 1 \<or> i = 2) \<or> ?w = 6 \<and> i = 1"
      using i by (auto simp add: j_def split: if_splits)
    have "isBusinessDay tz (Num (?t + i * msPerDay)) = ((?w + i) mod 7 \<noteq> 0 \<and> (?w + i) mod 7 \<noteq> 6)"
      by (rule isBusinessDay_add_days)
    then have "\<not> isBusinessDay tz (Num (?t + i * msPerDay))" using w by auto
    then show ?thesis unfolding localMidnight_add_days .
  qed
  show ?thesis using j n b e by blast
qed

section \<open>Properties of the engine's building blocks\<close>

subsection \<open>The sort\<close>

lemma set_insort_cmp [simp]: "set (insort_cmp f x xs) = insert x (set xs)"
  by (induction xs) auto

lemma set_sort_cmp [simp]: "set (sort_cmp f xs) = set xs"
  by (induction xs) (simp_all add: sort_cmp_def)

lemma mset_insort_cmp [simp]: "mset (insort_cmp f x xs) = add_mset x (mset xs)"
  by (induction xs) auto

lemma mset_sort_cmp [simp]: "mset (sort_cmp f xs) = mset xs"
  by (induction xs) (simp_all add: sort_cmp_def)

lemma sorted_insort_cmp:
  assumes total: "\<And>a b. f a b \<le> 0 \<or> f b a \<le> 0"
    and trans: "\<And>a b c. f a b \<le> 0 \<Longrightarrow> f b c \<le> 0 \<Longrightarrow> f a c \<le> 0"
    and sorted: "sorted_wrt (\<lambda>a b. f a b \<le> 0) xs"
  shows "sorted_wrt (\<lambda>a b. f a b \<le> 0) (insort_cmp f x xs)"
  using sorted
proof (induction xs)
  case Nil
  then show ?case by simp
next
  case (Cons y ys)
  show ?case
  proof (cases "f x y \<le> 0")
    case True
    then have "\<forall>z\<in>set ys. f x z \<le> 0"
      using Cons.prems trans by auto
    then show ?thesis using True Cons.prems by simp
  next
    case False
    then have "f y x \<le> 0" using total [of x y] by simp
    then show ?thesis using False Cons by auto
  qed
qed

lemma sorted_sort_cmp:
  assumes total: "\<And>a b. f a b \<le> 0 \<or> f b a \<le> 0"
    and trans: "\<And>a b c. f a b \<le> 0 \<Longrightarrow> f b c \<le> 0 \<Longrightarrow> f a c \<le> 0"
  shows "sorted_wrt (\<lambda>a b. f a b \<le> 0) (sort_cmp f xs)"
proof (induction xs)
  case Nil
  then show ?case by (simp add: sort_cmp_def)
next
  case (Cons x xs)
  have "sort_cmp f (x # xs) = insort_cmp f x (sort_cmp f xs)"
    by (simp add: sort_cmp_def)
  then show ?case using sorted_insort_cmp [OF total trans Cons] by simp
qed

subsection \<open>The loop over the contacts\<close>

lemma forEachContact_set:
  "forEachContact body cs acc = Inr all \<Longrightarrow>
     set all = set acc \<union> {r. \<exists>c\<in>set cs. body c = Inr (Some r)}"
proof (induction cs arbitrary: acc)
  case Nil
  then show ?case by simp
next
  case (Cons c cs)
  show ?case
  proof (cases "body c")
    case (Inl e)
    then show ?thesis using Cons.prems by simp
  next
    case (Inr x)
    show ?thesis
    proof (cases x)
      case None
      then show ?thesis using Cons Inr by auto
    next
      case (Some r)
      then have "forEachContact body cs (acc @ [r]) = Inr all"
        using Cons.prems Inr by simp
      from Cons.IH [OF this] show ?thesis using Inr Some by auto
    qed
  qed
qed

lemma forEachContact_no_throw:
  "forEachContact body cs acc = Inr all \<Longrightarrow> c \<in> set cs \<Longrightarrow> \<exists>x. body c = Inr x"
proof (induction cs arbitrary: acc)
  case Nil
  then show ?case by simp
next
  case (Cons d ds)
  then show ?case
    by (cases "body d") (auto split: option.splits)
qed

lemma forEachContact_throw:
  "c \<in> set cs \<Longrightarrow> body c = Inl e \<Longrightarrow> \<exists>e'. forEachContact body cs acc = Inl e'"
proof (induction cs arbitrary: acc)
  case Nil
  then show ?case by simp
next
  case (Cons d ds)
  then show ?case
    by (cases "body d") (auto split: option.splits)
qed

subsection \<open>The two maps\<close>

lemma fold_setOpp_Some:
  "fold setOpp opps m k = Some opp \<Longrightarrow> (opp \<in> set opps \<and> opp_id opp = k) \<or> m k = Some opp"
proof (induction opps arbitrary: m)
  case Nil
  then show ?case by simp
next
  case (Cons a opps)
  from Cons.prems have "fold setOpp opps (setOpp a m) k = Some opp" by simp
  then have "(opp \<in> set opps \<and> opp_id opp = k) \<or> setOpp a m k = Some opp"
    by (rule Cons.IH)
  then show ?case by (auto simp add: setOpp_def split: if_splits)
qed

lemma buildOppsMap_Some:
  "buildOppsMap opps k = Some opp \<Longrightarrow> opp \<in> set opps \<and> opp_id opp = k"
  using fold_setOpp_Some [of opps Map.empty k opp] by (simp add: buildOppsMap_def)

lemma fold_setOpp_None:
  "(fold setOpp opps m k = None) = (m k = None \<and> k \<notin> opp_id ` set opps)"
  by (induction opps arbitrary: m) (auto simp add: setOpp_def)

lemma buildOppsMap_None: "(buildOppsMap opps k = None) = (k \<notin> opp_id ` set opps)"
  by (simp add: buildOppsMap_def fold_setOpp_None)

lemma fold_noteOutreach_None:
  "(fold noteOutreach logs m k = None) = (m k = None \<and> k \<notin> contact_id ` set logs)"
  by (induction logs arbitrary: m) (auto simp add: noteOutreach_def)

lemma buildLastOutreach_None:
  "(buildLastOutreach logs k = None) = (k \<notin> contact_id ` set logs)"
  by (simp add: buildLastOutreach_def fold_noteOutreach_None)

lemma noteOutreach_keep: "m k = Some v \<Longrightarrow> noteOutreach log m k = Some v"
  by (auto simp add: noteOutreach_def)

lemma fold_noteOutreach_keep:
  "m k = Some v \<Longrightarrow> fold noteOutreach logs m k = Some v"
proof (induction logs arbitrary: m)
  case Nil
  then show ?case by simp
next
  case (Cons a logs)
  have "noteOutreach a m k = Some v" using Cons.prems by (rule noteOutreach_keep)
  then have "fold noteOutreach logs (noteOutreach a m) k = Some v" by (rule Cons.IH)
  then show ?case by simp
qed

lemma fold_noteOutreach_first:
  "m k = None \<Longrightarrow> contact_id log = k \<Longrightarrow> k \<notin> contact_id ` set before \<Longrightarrow>
   fold noteOutreach (before @ log # after) m k
     = Some \<lparr>date = contact_date log, method' = contact_method log\<rparr>"
proof (induction before arbitrary: m)
  case Nil
  then have "noteOutreach log m k = Some \<lparr>date = contact_date log, method' = contact_method log\<rparr>"
    by (simp add: noteOutreach_def)
  then show ?case by (simp add: fold_noteOutreach_keep)
next
  case (Cons b before)
  have "contact_id b \<noteq> k" using Cons.prems by auto
  then have "noteOutreach b m k = None" using Cons.prems by (simp add: noteOutreach_def)
  moreover have "k \<notin> contact_id ` set before" using Cons.prems by simp
  ultimately have "fold noteOutreach (before @ log # after) (noteOutreach b m) k
     = Some \<lparr>date = contact_date log, method' = contact_method log\<rparr>"
    using Cons.prems(2) by (intro Cons.IH)
  then show ?case by simp
qed

lemma buildLastOutreach_first:
  "contact_id log = k \<Longrightarrow> k \<notin> contact_id ` set before \<Longrightarrow>
   buildLastOutreach (before @ log # after) k
     = Some \<lparr>date = contact_date log, method' = contact_method log\<rparr>"
  unfolding buildLastOutreach_def by (rule fold_noteOutreach_first) simp_all

subsection \<open>The body of the loop over the contacts\<close>

lemmas record_eval = Contact.defs ContactWithDueInfo.defs

lemma addBusinessDays_Num:
  "\<exists>j\<ge>0. addBusinessDays tz (Num t) n = Num (t + j * msPerDay)"
proof (cases "0 \<le> n")
  case True
  from addBusinessDays_while_count [OF True, of tz t] show ?thesis
    by (auto simp add: addBusinessDays_def)
next
  case False
  then have "addBusinessDays tz (Num t) n = Num (t + 0 * msPerDay)"
    by (simp add: addBusinessDays_nonpos)
  then show ?thesis by blast
qed

lemma addBusinessDays_localMidnight:
  "\<exists>d'\<ge>d. addBusinessDays tz (Num (localMidnight tz d)) n = Num (localMidnight tz d')"
proof -
  obtain j where j: "0 \<le> j"
    "addBusinessDays tz (Num (localMidnight tz d)) n = Num (localMidnight tz d + j * msPerDay)"
    using addBusinessDays_Num by blast
  have "localMidnight tz d + j * msPerDay = localMidnight tz (d + j)"
    by (simp add: localMidnight_def UTC_def algebra_simps)
  then show ?thesis using j by (intro exI [of _ "d + j"]) simp
qed

lemma setHours0_newDate_Num:
  assumes "setHours0 tz (newDate s) = Num t"
  shows "\<exists>k. s = IsoDate k \<and> t = localMidnight tz (Day (LocalTime tz (k * msPerDay)))"
proof (cases s)
  case (IsoDate k)
  then show ?thesis using assms by (simp add: newDate_def setHours0_Num)
next
  case NotADate
  then show ?thesis using assms by (simp add: newDate_def setHours0_def)
qed

lemma floorDays_localMidnight:
  "floorDays (getTime (Num (localMidnight tz a))) (getTime (Num (localMidnight tz b))) = Num (a - b)"
proof -
  have "localMidnight tz a - localMidnight tz b = (a - b) * msPerDay"
    by (simp add: localMidnight_def UTC_def algebra_simps)
  then have "(localMidnight tz a - localMidnight tz b) div msPerDay = a - b"
    by (simp add: msPerDay_def)
  then show ?thesis by (simp add: floorDays_def getTime_def msPerDay_def)
qed

lemma dueInfo_no_opportunity:
  "oppsMap (oppKey contact) = None \<Longrightarrow>
     dueInfo tz today isBizDay nextBizDay oppsMap lastOutreach contact = Inr None"
  by (simp add: dueInfo_def)

lemma dueInfo_with_last:
  assumes "oppsMap (oppKey contact) = Some opp"
    and "lastOutreach (con_id contact) = Some l"
  shows "dueInfo tz today isBizDay nextBizDay oppsMap lastOutreach contact =
     (let lastContactDate = setHours0 tz (newDate (date l));
          dueDate = addBusinessDays tz lastContactDate (cadenceOrDefault (cadence_days contact))
      in case formatDate dueDate of
           Inl e \<Rightarrow> Inl e
         | Inr dueDateStr \<Rightarrow>
             Inr (Some (Contact.extend contact
               (ContactWithDueInfo.fields (health_systems opp) opp (Some (date l))
                  (Some (floorDays (getTime today) (getTime lastContactDate)))
                  (countBusinessDays tz dueDate today) dueDateStr
                  (num_lt dueDate today \<and> isBizDay)))))"
  using assms by (simp add: dueInfo_def Let_def split: sum.splits)

lemma dueInfo_never_contacted:
  assumes "oppsMap (oppKey contact) = Some opp"
    and "lastOutreach (con_id contact) = None"
  shows "dueInfo tz today isBizDay nextBizDay oppsMap lastOutreach contact =
     (let dueDate = (if isBizDay then today else nextBizDay)
      in case formatDate dueDate of
           Inl e \<Rightarrow> Inl e
         | Inr dueDateStr \<Rightarrow>
             Inr (Some (Contact.extend contact
               (ContactWithDueInfo.fields (health_systems opp) opp None None
                  (countBusinessDays tz dueDate today) dueDateStr
                  (num_lt dueDate today \<and> isBizDay)))))"
  using assms by (simp add: dueInfo_def Let_def split: sum.splits)

lemma dueInfo_Some:
  assumes "dueInfo tz today isBizDay nextBizDay oppsMap lastOutreach contact = Inr (Some r)"
  shows "oppsMap (oppKey contact) = Some (opportunity r) \<and> Contact.truncate r = contact
         \<and> health_system r = health_systems (opportunity r)"
proof (cases "oppsMap (oppKey contact)")
  case None
  then show ?thesis using assms by (simp add: dueInfo_def)
next
  case (Some opp)
  show ?thesis
  proof (cases "lastOutreach (con_id contact)")
    case None
    then show ?thesis
      using assms Some
      by (auto simp add: dueInfo_never_contacted Let_def record_eval split: sum.splits)
  next
    case l: (Some l)
    then show ?thesis
      using assms Some
      by (auto simp add: dueInfo_with_last Let_def record_eval split: sum.splits)
  qed
qed

subsection \<open>The whole of fetchData\<close>

lemma fetchData_Inr:
  assumes "fetchData tz localeCompare now allOppsData contactsData logsData = Inr st"
  shows "nextBusinessDay st = getNextBusinessDay tz (setHours0 tz (Num now))
     \<and> isBusinessDayToday st = isBusinessDay tz (setHours0 tz (Num now))
     \<and> (\<exists>allDueContacts.
          (if filter isProspect (orEmpty allOppsData) = [] then allDueContacts = []
           else forEachContact
                  (dueInfo tz (setHours0 tz (Num now)) (isBusinessDay tz (setHours0 tz (Num now)))
                     (getNextBusinessDay tz (setHours0 tz (Num now)))
                     (buildOppsMap (filter isProspect (orEmpty allOppsData)))
                     (buildLastOutreach (orEmpty logsData)))
                  (orEmpty contactsData) [] = Inr allDueContacts)
        \<and> todayContacts st = sort_cmp (compareToday localeCompare)
              (filter (isDueToday tz (setHours0 tz (Num now))) allDueContacts)
        \<and> nextDayContacts st = sort_cmp (compareAccount localeCompare)
              (filter (isDueNextDay tz (getNextBusinessDay tz (setHours0 tz (Num now)))) allDueContacts))"
proof (cases "filter isProspect (orEmpty allOppsData) = []")
  case True
  then have "st = \<lparr>todayContacts = [], nextDayContacts = [],
                   nextBusinessDay = getNextBusinessDay tz (setHours0 tz (Num now)),
                   isBusinessDayToday = isBusinessDay tz (setHours0 tz (Num now))\<rparr>"
    using assms by (simp add: fetchData_def Let_def)
  then show ?thesis using True by (simp add: sort_cmp_def)
next
  case False
  then show ?thesis
    using assms by (auto simp add: fetchData_def Let_def split: sum.splits)
qed

lemma listed_is_processed:
  assumes "fetchData tz localeCompare now allOppsData contactsData logsData = Inr st"
    and "r \<in> set (todayContacts st) \<union> set (nextDayContacts st)"
  shows "\<exists>contact\<in>set (orEmpty contactsData).
           dueInfo tz (setHours0 tz (Num now)) (isBusinessDay tz (setHours0 tz (Num now)))
             (getNextBusinessDay tz (setHours0 tz (Num now)))
             (buildOppsMap (filter isProspect (orEmpty allOppsData)))
             (buildLastOutreach (orEmpty logsData)) contact = Inr (Some r)"
proof -
  from fetchData_Inr [OF assms(1)] obtain allDueContacts where a:
    "if filter isProspect (orEmpty allOppsData) = [] then allDueContacts = []
     else forEachContact
            (dueInfo tz (setHours0 tz (Num now)) (isBusinessDay tz (setHours0 tz (Num now)))
               (getNextBusinessDay tz (setHours0 tz (Num now)))
               (buildOppsMap (filter isProspect (orEmpty allOppsData)))
               (buildLastOutreach (orEmpty logsData)))
            (orEmpty contactsData) [] = Inr allDueContacts"
    "todayContacts st = sort_cmp (compareToday localeCompare)
        (filter (isDueToday tz (setHours0 tz (Num now))) allDueContacts)"
    "nextDayContacts st = sort_cmp (compareAccount localeCompare)
        (filter (isDueNextDay tz (getNextBusinessDay tz (setHours0 tz (Num now)))) allDueContacts)"
    by blast
  have r: "r \<in> set allDueContacts" using assms(2) a(2,3) by auto
  then have ne: "filter isProspect (orEmpty allOppsData) \<noteq> []" using a(1) by auto
  with a(1) have "forEachContact
            (dueInfo tz (setHours0 tz (Num now)) (isBusinessDay tz (setHours0 tz (Num now)))
               (getNextBusinessDay tz (setHours0 tz (Num now)))
               (buildOppsMap (filter isProspect (orEmpty allOppsData)))
               (buildLastOutreach (orEmpty logsData)))
            (orEmpty contactsData) [] = Inr allDueContacts" by simp
  from forEachContact_set [OF this] r show ?thesis by auto
qed

lemma oppKey_truncate: "oppKey (Contact.truncate r) = oppKey r"
  by (simp add: oppKey_def Contact.defs)

subsection \<open>The comparators\<close>

lemma lexCompare_total: "lexCompare a b \<le> 0 \<or> lexCompare b a \<le> 0"
  by (induction a b rule: lexCompare.induct) auto

lemma lexCompare_trans:
  "lexCompare a b \<le> 0 \<Longrightarrow> lexCompare b c \<le> 0 \<Longrightarrow> lexCompare a c \<le> 0"
proof (induction a b arbitrary: c rule: lexCompare.induct)
  case 1
  then show ?case by simp
next
  case (2 y ys)
  then show ?case by (cases c) simp_all
next
  case (3 x xs)
  then show ?case by simp
next
  case (4 x xs y ys)
  show ?case
  proof (cases c)
    case Nil
    then show ?thesis using "4.prems" by simp
  next
    case (Cons z zs)
    show ?thesis
    proof (cases "x < y")
      case True
      then show ?thesis using "4.prems" Cons by (auto split: if_splits)
    next
      case False
      then have xy: "x = y" and r: "lexCompare xs ys \<le> 0"
        using "4.prems"(1) by (auto split: if_splits)
      show ?thesis
      proof (cases "y < z")
        case True
        then show ?thesis using xy Cons by simp
      next
        case nlt: False
        then have yz: "y = z" and r2: "lexCompare ys zs \<le> 0"
          using "4.prems"(2) Cons by (auto split: if_splits)
        have "lexCompare xs zs \<le> 0"
          using "4.IH" [of zs] False xy r r2 by simp
        then show ?thesis using xy yz Cons by simp
      qed
    qed
  qed
qed

lemma ciCompare_total: "ciCompare a b \<le> 0 \<or> ciCompare b a \<le> 0"
  by (simp add: ciCompare_def lexCompare_total)

lemma ciCompare_trans: "ciCompare a b \<le> 0 \<Longrightarrow> ciCompare b c \<le> 0 \<Longrightarrow> ciCompare a c \<le> 0"
  unfolding ciCompare_def by (rule lexCompare_trans)

lemma compareToday_le:
  "(compareToday localeCompare a b \<le> 0) =
     (is_rollover a \<and> \<not> is_rollover b
      \<or> is_rollover a = is_rollover b
        \<and> (days_overdue b < days_overdue a
           \<or> days_overdue a = days_overdue b
             \<and> localeCompare (hs_name (health_system a)) (hs_name (health_system b)) \<le> 0))"
  by (auto simp add: compareToday_def)

subsection \<open>How the engine reads a date string\<close>

text \<open>A date-only string is parsed as midnight UTC and then moved to local midnight by
  \<^verbatim>\<open>setHours(0, 0, 0, 0)\<close>; \<^verbatim>\<open>formatDate\<close> writes the UTC day. For an offset of less than a
  day: west of UTC the engine reads the string of day \<open>k\<close> as day \<open>k - 1\<close>; and a due date
  that went through \<^verbatim>\<open>formatDate\<close> comes back one day early in every zone but UTC, so the
  due-today filter passes the contacts due up to tomorrow and the next-business-day filter
  passes the contacts due the day after the next business day. In UTC both filters compare
  the due date itself.\<close>

lemma div_days:
  assumes "0 \<le> r" "r < msPerDay"
  shows "(d * msPerDay + r) div msPerDay = d"
proof -
  have "(d * msPerDay + r) div msPerDay = d + r div msPerDay"
    by (simp add: msPerDay_def)
  moreover have "r div msPerDay = 0" using assms by simp
  ultimately show ?thesis by simp
qed

lemma Day_utc_midnight_local:
  assumes "- msPerDay < tz" "tz < msPerDay"
  shows "Day (LocalTime tz (k * msPerDay)) = (if tz < 0 then k - 1 else k)"
proof (cases "tz < 0")
  case True
  have e: "k * msPerDay + tz = (k - 1) * msPerDay + (msPerDay + tz)" by (simp add: algebra_simps)
  have "((k - 1) * msPerDay + (msPerDay + tz)) div msPerDay = k - 1"
    by (rule div_days) (use assms True in simp_all)
  then have "(k * msPerDay + tz) div msPerDay = k - 1"
    by (simp only: e)
  then show ?thesis using True by (simp add: Day_def LocalTime_def)
next
  case False
  then have "(k * msPerDay + tz) div msPerDay = k"
    using div_days [of tz k] assms by simp
  then show ?thesis using False by (simp add: Day_def LocalTime_def)
qed

lemma Day_local_midnight_utc:
  assumes "- msPerDay < tz" "tz < msPerDay"
  shows "Day (localMidnight tz d) = (if 0 < tz then d - 1 else d)"
proof (cases "0 < tz")
  case True
  have e: "d * msPerDay - tz = (d - 1) * msPerDay + (msPerDay - tz)" by (simp add: algebra_simps)
  have "((d - 1) * msPerDay + (msPerDay - tz)) div msPerDay = d - 1"
    by (rule div_days) (use assms True in simp_all)
  then have "(d * msPerDay - tz) div msPerDay = d - 1"
    by (simp only: e)
  then show ?thesis using True by (simp add: Day_def localMidnight_def UTC_def)
next
  case False
  have "d * msPerDay - tz = d * msPerDay + (- tz)" by simp
  then have "(d * msPerDay - tz) div msPerDay = d"
    using div_days [of "- tz" d] assms False by simp
  then show ?thesis using False by (simp add: Day_def localMidnight_def UTC_def)
qed

lemma reads_date_string:
  assumes "- msPerDay < tz" "tz < msPerDay"
  shows "setHours0 tz (newDate (IsoDate k)) = Num (localMidnight tz (if tz < 0 then k - 1 else k))"
  using Day_utc_midnight_local [OF assms, of k] by (simp add: newDate_def setHours0_Num)

lemma rereads_due_date:
  assumes "- msPerDay < tz" "tz < msPerDay"
    and "formatDate (Num (localMidnight tz d)) = Inr s"
  shows "setHours0 tz (newDate s) = Num (localMidnight tz (if tz = 0 then d else d - 1))"
proof -
  have s: "s = IsoDate (if 0 < tz then d - 1 else d)"
    using assms(3) Day_local_midnight_utc [OF assms(1,2), of d] by (auto simp add: formatDate_def)
  show ?thesis
    unfolding s reads_date_string [OF assms(1,2)] by auto
qed

lemma isDueToday_iff:
  assumes "- msPerDay < tz" "tz < msPerDay"
    and "formatDate (Num (localMidnight tz d)) = Inr (due_date r)"
  shows "isDueToday tz (Num (localMidnight tz today)) r = (if tz = 0 then d \<le> today else d \<le> today + 1)"
  using rereads_due_date [OF assms] by (auto simp add: isDueToday_def)

lemma isDueNextDay_iff:
  assumes "- msPerDay < tz" "tz < msPerDay"
    and "formatDate (Num (localMidnight tz d)) = Inr (due_date r)"
  shows "isDueNextDay tz (Num (localMidnight tz nextDay)) r = (if tz = 0 then d = nextDay else d = nextDay + 1)"
  using rereads_due_date [OF assms] Day_local_midnight_utc [OF assms(1,2)]
  by (auto simp add: isDueNextDay_def formatDate_def)

subsection \<open>Re-reading the stored due date\<close>

lemma Day_times_le: "Day t * msPerDay \<le> t"
proof -
  have "t div msPerDay * msPerDay + t mod msPerDay = t" by simp
  moreover have "0 \<le> t mod msPerDay" by (simp add: msPerDay_def)
  ultimately show ?thesis unfolding Day_def by linarith
qed

lemma setHours0_le: "setHours0 tz (Num x) = Num y \<Longrightarrow> y \<le> x"
  using Day_times_le [of "LocalTime tz x"]
  by (auto simp add: setHours0_def UTC_def LocalTime_def)

lemma reread_due_date_le:
  "formatDate (Num t) = Inr s \<Longrightarrow> num_le (setHours0 tz (newDate s)) (Num t)"
proof -
  assume "formatDate (Num t) = Inr s"
  then have s: "s = IsoDate (Day t)" by (auto simp add: formatDate_def)
  obtain y where y: "setHours0 tz (Num (Day t * msPerDay)) = Num y"
    by (simp add: setHours0_def)
  then have "y \<le> Day t * msPerDay" by (rule setHours0_le)
  then have "y \<le> t" using Day_times_le [of t] by simp
  then show ?thesis using s y by (simp add: newDate_def)
qed

lemma getNextBusinessDay_after:
  "num_lt (Num t) (getNextBusinessDay tz (Num t))"
  by (simp add: getNextBusinessDay_Num msPerDay_def)

subsection \<open>Running the engine on the sample data\<close>

lemmas engine_eval = fetchData_def Let_def orEmpty_def isProspect_def buildOppsMap_def setOpp_def
  buildLastOutreach_def noteOutreach_def dueInfo_def oppKey_def cadenceOrDefault_def newDate_def
  formatDate_def floorDays_def getTime_def isDueToday_def isDueNextDay_def sort_cmp_def
  compareToday_def compareAccount_def ciCompare_def toLowerCode_def

lemmas sample_eval = sampleOpps_def sampleContacts_def sampleLogs_def malformedLogs_def
  negativeCadenceContacts_def orderingOpps_def orderingContacts_def orderingLogs_def
  mondayContacts_def mondayLogs_def

lemma sample_run:
  "fetchData (- 18000000) ciCompare 1705330800000 (Some sampleOpps) (Some sampleContacts)
     (Some sampleLogs)
   = Inr \<lparr>todayContacts =
            [\<lparr>con_id = ''c1'', con_name = ''Ann'', opportunity_id = Some ''o1'', cadence_days = Some 10,
              health_system = \<lparr>hs_name = ''Mercy''\<rparr>,
              opportunity = \<lparr>opp_id = ''o1'', status = Some ''prospect'',
                              health_systems = \<lparr>hs_name = ''Mercy''\<rparr>\<rparr>,
              last_contact_date = Some (IsoDate 19725), days_since_contact = Some (Num 13),
              days_overdue = 0, due_date = IsoDate 19738, is_rollover = False\<rparr>,
             \<lparr>con_id = ''c3'', con_name = ''Cy'', opportunity_id = Some ''o1'', cadence_days = None,
              health_system = \<lparr>hs_name = ''Mercy''\<rparr>,
              opportunity = \<lparr>opp_id = ''o1'', status = Some ''prospect'',
                              health_systems = \<lparr>hs_name = ''Mercy''\<rparr>\<rparr>,
              last_contact_date = None, days_since_contact = None,
              days_overdue = 0, due_date = IsoDate 19737, is_rollover = False\<rparr>],
          nextDayContacts = [],
          nextBusinessDay = Num (localMidnight (- 18000000) 19738),
          isBusinessDayToday = True\<rparr>"
  by (simp add: engine_eval sample_eval record_eval loop_eval calendar_eval)

lemma malformed_run:
  "fetchData (- 18000000) ciCompare 1705330800000 (Some sampleOpps) (Some sampleContacts)
     (Some malformedLogs) = Inl RangeError"
  by (simp add: engine_eval sample_eval record_eval loop_eval calendar_eval
      addBusinessDays_while_NaN setHours0_def)

lemma ordering_run:
  "\<exists>st. fetchData 0 ciCompare 1705312800000 (Some orderingOpps) (Some orderingContacts)
          (Some orderingLogs) = Inr st
   \<and> map (\<lambda>r. (con_id r, is_rollover r, days_overdue r, hs_name (health_system r))) (todayContacts st)
       = [(''c2'', True, 7, ''alpha care''), (''c1'', True, 3, ''Zeta Health''),
          (''c4'', False, 0, ''acme''), (''c3'', False, 0, ''Beta Clinic'')]
   \<and> map (\<lambda>r. (con_id r, hs_name (health_system r))) (nextDayContacts st)
       = [(''c6'', ''delta''), (''c5'', ''Mercy'')]"
  by (simp add: engine_eval sample_eval record_eval loop_eval calendar_eval)

lemma negative_run:
  "fetchData (- 18000000) ciCompare 1705330800000 (Some sampleOpps) (Some negativeCadenceContacts)
     (Some sampleLogs)
   = Inr \<lparr>todayContacts =
            [\<lparr>con_id = ''c1'', con_name = ''Ann'', opportunity_id = Some ''o1'',
              cadence_days = Some (- 5),
              health_system = \<lparr>hs_name = ''Mercy''\<rparr>,
              opportunity = \<lparr>opp_id = ''o1'', status = Some ''prospect'',
                              health_systems = \<lparr>hs_name = ''Mercy''\<rparr>\<rparr>,
              last_contact_date = Some (IsoDate 19725), days_since_contact = Some (Num 13),
              days_overdue = 9, due_date = IsoDate 19724, is_rollover = True\<rparr>],
          nextDayContacts = [],
          nextBusinessDay = Num (localMidnight (- 18000000) 19738),
          isBusinessDayToday = True\<rparr>"
  by (simp add: engine_eval sample_eval record_eval loop_eval calendar_eval)

lemma sample_dates:
  "setHours0 (- 18000000) (Num 1705330800000) = Num (localMidnight (- 18000000) 19737)"
  "setHours0 (- 18000000) (newDate (IsoDate 19725)) = Num (localMidnight (- 18000000) 19724)"
  "addBusinessDays (- 18000000) (Num (localMidnight (- 18000000) 19724)) 10
     = Num (localMidnight (- 18000000) 19738)"
  "getNextBusinessDay (- 18000000) (Num (localMidnight (- 18000000) 19737))
     = Num (localMidnight (- 18000000) 19738)"
  "isBusinessDay (- 18000000) (Num (localMidnight (- 18000000) 19737))"
  by (simp_all add: newDate_def loop_eval calendar_eval)

lemma monday_run:
  "fetchData (- 18000000) ciCompare 1704726000000 (Some sampleOpps) (Some mondayContacts)
     (Some mondayLogs)
   = Inr \<lparr>todayContacts =
            [\<lparr>con_id = ''c1'', con_name = ''Ann'', opportunity_id = Some ''o1'', cadence_days = Some 5,
              health_system = \<lparr>hs_name = ''Mercy''\<rparr>,
              opportunity = \<lparr>opp_id = ''o1'', status = Some ''prospect'',
                              health_systems = \<lparr>hs_name = ''Mercy''\<rparr>\<rparr>,
              last_contact_date = Some (IsoDate 19723), days_since_contact = Some (Num 8),
              days_overdue = 1, due_date = IsoDate 19727, is_rollover = True\<rparr>],
          nextDayContacts = [],
          nextBusinessDay = Num (localMidnight (- 18000000) 19731),
          isBusinessDayToday = True\<rparr>"
  by (simp add: engine_eval sample_eval record_eval loop_eval calendar_eval)

lemma monday_run_utc:
  "fetchData 0 ciCompare 1704708000000 (Some sampleOpps) (Some mondayContacts)
     (Some mondayLogs)
   = Inr \<lparr>todayContacts =
            [\<lparr>con_id = ''c1'', con_name = ''Ann'', opportunity_id = Some ''o1'', cadence_days = Some 5,
              health_system = \<lparr>hs_name = ''Mercy''\<rparr>,
              opportunity = \<lparr>opp_id = ''o1'', status = Some ''prospect'',
                              health_systems = \<lparr>hs_name = ''Mercy''\<rparr>\<rparr>,
              last_contact_date = Some (IsoDate 19723), days_since_contact = Some (Num 7),
              days_overdue = 0, due_date = IsoDate 19730, is_rollover = False\<rparr>],
          nextDayContacts = [],
          nextBusinessDay = Num (localMidnight 0 19731),
          isBusinessDayToday = True\<rparr>"
  by (simp add: engine_eval sample_eval record_eval loop_eval calendar_eval)

lemma monday_dates:
  "setHours0 (- 18000000) (Num 1704726000000) = Num (localMidnight (- 18000000) 19730)"
  "dayOfWeek (- 18000000) (localMidnight (- 18000000) 19723) = Monday"
  "dayOfWeek (- 18000000) (localMidnight (- 18000000) 19730) = Monday"
  "addBusinessDays (- 18000000) (Num (localMidnight (- 18000000) 19723)) 5
     = Num (localMidnight (- 18000000) 19730)"
  "formatDate (Num (localMidnight (- 18000000) 19730)) = Inr (IsoDate 19730)"
  "floorDays (getTime (Num (localMidnight (- 18000000) 19730)))
     (getTime (Num (localMidnight (- 18000000) 19723))) = Num 7"
  "countBusinessDays (- 18000000) (Num (localMidnight (- 18000000) 19730))
     (Num (localMidnight (- 18000000) 19730)) = 0"
  "setHours0 (- 18000000) (newDate (IsoDate 19723)) = Num (localMidnight (- 18000000) 19722)"
  by (simp_all add: newDate_def formatDate_def floorDays_def getTime_def loop_eval calendar_eval)

lemma east_run:
  "fetchData 3600000 ciCompare 1705309200000 (Some sampleOpps) (Some sampleContacts)
     (Some sampleLogs)
   = Inr \<lparr>todayContacts =
            [\<lparr>con_id = ''c3'', con_name = ''Cy'', opportunity_id = Some ''o1'', cadence_days = None,
              health_system = \<lparr>hs_name = ''Mercy''\<rparr>,
              opportunity = \<lparr>opp_id = ''o1'', status = Some ''prospect'',
                              health_systems = \<lparr>hs_name = ''Mercy''\<rparr>\<rparr>,
              last_contact_date = None, days_since_contact = None,
              days_overdue = 0, due_date = IsoDate 19736, is_rollover = False\<rparr>],
          nextDayContacts =
            [\<lparr>con_id = ''c1'', con_name = ''Ann'', opportunity_id = Some ''o1'', cadence_days = Some 10,
              health_system = \<lparr>hs_name = ''Mercy''\<rparr>,
              opportunity = \<lparr>opp_id = ''o1'', status = Some ''prospect'',
                              health_systems = \<lparr>hs_name = ''Mercy''\<rparr>\<rparr>,
              last_contact_date = Some (IsoDate 19725), days_since_contact = Some (Num 12),
              days_overdue = 0, due_date = IsoDate 19738, is_rollover = False\<rparr>],
          nextBusinessDay = Num (localMidnight 3600000 19738),
          isBusinessDayToday = True\<rparr>"
  by (simp add: engine_eval sample_eval record_eval loop_eval calendar_eval)

lemma east_saturday_run:
  "fetchData 3600000 ciCompare 1705136400000 (Some sampleOpps) (Some sampleContacts)
     (Some sampleLogs)
   = Inr \<lparr>todayContacts = [], nextDayContacts = [],
          nextBusinessDay = Num (localMidnight 3600000 19737),
          isBusinessDayToday = False\<rparr>"
  by (simp add: engine_eval sample_eval record_eval loop_eval calendar_eval)

section \<open>Claims about the calendar\<close>

text \<open>
  Claim C8. For every valid Date, \<^const>\<open>isBusinessDay\<close> is false exactly when the date falls,
  in local time, on a Saturday or a Sunday, and true from Monday to Friday. No holiday
  calendar enters: the answer is the same a whole number of weeks earlier or later.
\<close>

theorem isBusinessDay_weekdays:
  "isBusinessDay tz (Num t) = (dayOfWeek tz t \<noteq> Saturday \<and> dayOfWeek tz t \<noteq> Sunday)
   \<and> isBusinessDay tz (Num t) = (dayOfWeek tz t \<in> {Monday, Tuesday, Wednesday, Thursday, Friday})
   \<and> isBusinessDay tz (Num (t + 7 * k * msPerDay)) = isBusinessDay tz (Num t)"
proof -
  have a: "isBusinessDay tz (Num t) = (dayOfWeek tz t \<noteq> Saturday \<and> dayOfWeek tz t \<noteq> Sunday)"
    by (auto simp add: isBusinessDay_Num dayOfWeek_def weekdayOf_WeekDay)
  have b: "(dayOfWeek tz t \<noteq> Saturday \<and> dayOfWeek tz t \<noteq> Sunday)
           = (dayOfWeek tz t \<in> {Monday, Tuesday, Wednesday, Thursday, Friday})"
    by (cases "dayOfWeek tz t") simp_all
  have "(WeekDay (LocalTime tz t) + 7 * k) mod 7 = WeekDay (LocalTime tz t)"
    using WeekDay_range [of "LocalTime tz t"] by simp
  then have c: "isBusinessDay tz (Num (t + 7 * k * msPerDay)) = isBusinessDay tz (Num t)"
    using isBusinessDay_add_days [of tz t "7 * k"] by (simp add: isBusinessDay_Num)
  show ?thesis using a b c by simp
qed

theorem isBusinessDay_weekdays_witness:
  "dayOfWeek (- 18000000) 1705719600000 = Friday
   \<and> isBusinessDay (- 18000000) (Num 1705719600000)
   \<and> dayOfWeek 0 1705719600000 = Saturday
   \<and> \<not> isBusinessDay 0 (Num 1705719600000)
   \<and> \<not> isBusinessDay 0 (Num (1705719600000 + 7 * 52 * msPerDay))"
proof -
  have d: "dayOfWeek (- 18000000) 1705719600000 = Friday" "dayOfWeek 0 1705719600000 = Saturday"
    by (simp_all add: calendar_eval)
  show ?thesis
    using d isBusinessDay_weekdays [of "- 18000000" 1705719600000 52]
      isBusinessDay_weekdays [of 0 1705719600000 52]
    by simp
qed

text \<open>
  Claim C5. For dates \<open>a\<close> and \<open>b\<close> (calendar days, held as local midnights the way the
  engine holds them), \<^const>\<open>countBusinessDays\<close> is the number of business days strictly
  after \<open>a\<close> and up to and including \<open>b\<close>. For valid Dates \<open>t\<close> and \<open>u\<close> with any time of
  day, it is the number of business days among \<open>t + 1 day, t + 2 days, ...\<close> up to \<open>u\<close>.
  For all Dates it is 0 when the end is not after the start, and it does not decrease when
  the end moves later.
\<close>

theorem countBusinessDays_spec:
  "countBusinessDays tz (Num (localMidnight tz a)) (Num (localMidnight tz b)) =
     int (card {d. a < d \<and> d \<le> b \<and> isBusinessDay tz (Num (localMidnight tz d))})
   \<and> countBusinessDays tz (Num t) (Num u) =
     int (card {i. 1 \<le> i \<and> t + i * msPerDay \<le> u \<and> isBusinessDay tz (Num (t + i * msPerDay))})
   \<and> (num_le endDate startDate \<longrightarrow> countBusinessDays tz startDate endDate = 0)
   \<and> (num_le endDate endDate' \<longrightarrow>
        countBusinessDays tz startDate endDate \<le> countBusinessDays tz startDate endDate')"
  using countBusinessDays_localMidnight countBusinessDays_closed countBusinessDays_not_after
    countBusinessDays_mono
  by blast

theorem countBusinessDays_spec_witness:
  "card {d. 19737 < d \<and> d \<le> 19744 \<and> isBusinessDay 0 (Num (localMidnight 0 d))} = 5
   \<and> num_le (Num (localMidnight 0 19737)) (Num (localMidnight 0 19744))
   \<and> countBusinessDays 0 (Num (localMidnight 0 19744)) (Num (localMidnight 0 19737)) = 0
   \<and> num_le (Num (localMidnight 0 19737)) (Num (localMidnight 0 19751))
   \<and> countBusinessDays 0 (Num (localMidnight 0 19744)) (Num (localMidnight 0 19737))
       \<le> countBusinessDays 0 (Num (localMidnight 0 19744)) (Num (localMidnight 0 19751))"
proof -
  have ev: "countBusinessDays 0 (Num (localMidnight 0 19737)) (Num (localMidnight 0 19744)) = 5"
    by (simp add: loop_eval calendar_eval)
  have h1: "num_le (Num (localMidnight 0 19737)) (Num (localMidnight 0 19744))" by simp
  have h2: "num_le (Num (localMidnight 0 19737)) (Num (localMidnight 0 19751))" by simp
  note spec = countBusinessDays_spec [where tz = 0 and a = 19737 and b = 19744 and t = 0 and u = 0
      and endDate = "Num (localMidnight 0 19737)" and startDate = "Num (localMidnight 0 19744)"
      and endDate' = "Num (localMidnight 0 19751)"]
  have c: "int (card {d. 19737 < d \<and> d \<le> 19744 \<and> isBusinessDay 0 (Num (localMidnight 0 d))}) = 5"
    using spec [THEN conjunct1] ev by simp
  have z: "countBusinessDays 0 (Num (localMidnight 0 19744)) (Num (localMidnight 0 19737)) = 0"
    using spec [THEN conjunct2, THEN conjunct2, THEN conjunct1] h1 by (rule mp)
  have m: "countBusinessDays 0 (Num (localMidnight 0 19744)) (Num (localMidnight 0 19737))
       \<le> countBusinessDays 0 (Num (localMidnight 0 19744)) (Num (localMidnight 0 19751))"
    using spec [THEN conjunct2, THEN conjunct2, THEN conjunct2] h2 by (rule mp)
  show ?thesis using c h1 z h2 m by simp
qed

text \<open>
  Claim C4. For every valid Date \<open>t\<close> and every positive \<open>n\<close>, \<^const>\<open>addBusinessDays\<close>
  returns a Date a whole number \<open>j \<ge> 1\<close> of days after \<open>t\<close> that is a business day;
  \<^const>\<open>countBusinessDays\<close> from \<open>t\<close> to the result is \<open>n\<close>; and exactly \<open>n\<close> of the days
  \<open>t + 1, ..., t + j\<close> are business days, so \<open>t\<close> itself is never one of them.
\<close>

theorem addBusinessDays_positive:
  assumes "0 < n"
  shows "\<exists>j\<ge>1. addBusinessDays tz (Num t) n = Num (t + j * msPerDay)
     \<and> isBusinessDay tz (addBusinessDays tz (Num t) n)
     \<and> countBusinessDays tz (Num t) (addBusinessDays tz (Num t) n) = n
     \<and> int (card {i. 1 \<le> i \<and> i \<le> j \<and> isBusinessDay tz (Num (t + i * msPerDay))}) = n"
proof -
  from assms have "0 \<le> n" by simp
  from addBusinessDays_while_count [OF this, of tz t] assms
  obtain j where j: "1 \<le> j" "addBusinessDays_while tz (Num t) 0 n = Num (t + j * msPerDay)"
    "countBusinessDays_while tz (Num (t + msPerDay)) (Num (t + j * msPerDay)) 0 = n"
    "isBusinessDay tz (Num (t + j * msPerDay))"
    by auto
  have r: "addBusinessDays tz (Num t) n = Num (t + j * msPerDay)"
    using j(2) by (simp add: addBusinessDays_def)
  have c: "countBusinessDays tz (Num t) (Num (t + j * msPerDay)) = n"
    using j(3) by (simp add: countBusinessDays_def)
  have "{i. 1 \<le> i \<and> t + i * msPerDay \<le> t + j * msPerDay \<and> isBusinessDay tz (Num (t + i * msPerDay))}
        = {i. 1 \<le> i \<and> i \<le> j \<and> isBusinessDay tz (Num (t + i * msPerDay))}"
    by (simp add: msPerDay_def)
  then have "int (card {i. 1 \<le> i \<and> i \<le> j \<and> isBusinessDay tz (Num (t + i * msPerDay))}) = n"
    using c by (simp add: countBusinessDays_closed)
  then show ?thesis using j(1) j(4) r c by auto
qed

theorem addBusinessDays_positive_witness:
  "(0::int) < 3
   \<and> addBusinessDays (- 18000000) (Num 1705590000000) 3 = Num (1705590000000 + 5 * msPerDay)
   \<and> isBusinessDay (- 18000000) (addBusinessDays (- 18000000) (Num 1705590000000) 3)
   \<and> countBusinessDays (- 18000000) (Num 1705590000000)
        (addBusinessDays (- 18000000) (Num 1705590000000) 3) = 3"
proof -
  have h: "(0::int) < 3" by simp
  have ev: "addBusinessDays (- 18000000) (Num 1705590000000) 3 = Num (1705590000000 + 5 * msPerDay)"
    by (simp add: loop_eval calendar_eval)
  show ?thesis
    using h ev addBusinessDays_positive [OF h, of "- 18000000" 1705590000000] by auto
qed

text \<open>
  Claim C10. The three loops are total recursive functions: each definition above carries
  the proof that its loop ends on every input, Invalid Dates included. Their results:
  \<^const>\<open>getNextBusinessDay\<close> returns a Date 1, 2 or 3 days after a valid Date (and an
  Invalid Date unchanged); \<^const>\<open>addBusinessDays\<close> returns, for every \<open>m\<close>, a Date a whole
  number of days after a valid start (and an Invalid Date unchanged), and for \<open>n \<le> 0\<close> the
  start date itself, weekend or not; \<^const>\<open>countBusinessDays\<close> returns a count between 0
  and the number of whole days from start to end.
\<close>

theorem calendar_total:
  "(\<exists>k\<in>{1, 2, 3}. getNextBusinessDay tz (Num t) = Num (t + k * msPerDay))
   \<and> getNextBusinessDay tz NaN = NaN
   \<and> (\<exists>j\<ge>0. addBusinessDays tz (Num t) m = Num (t + j * msPerDay))
   \<and> addBusinessDays tz NaN m = NaN
   \<and> (n \<le> 0 \<longrightarrow> addBusinessDays tz d n = d)
   \<and> 0 \<le> countBusinessDays tz s e
   \<and> countBusinessDays tz (Num x) (Num y) \<le> max 0 ((y - x) div msPerDay)"
proof -
  have "\<exists>k\<in>{1, 2, 3}. getNextBusinessDay tz (Num t) = Num (t + k * msPerDay)"
    by (simp add: getNextBusinessDay_Num)
  moreover have "addBusinessDays tz NaN m = NaN"
    by (simp add: addBusinessDays_def addBusinessDays_while_NaN)
  ultimately show ?thesis
    using addBusinessDays_nonpos addBusinessDays_Num countBusinessDays_nonneg
      countBusinessDays_le_days
    by simp
qed

theorem calendar_total_witness:
  "getNextBusinessDay 0 (Num (localMidnight 0 19741)) = Num (localMidnight 0 19744)
   \<and> (- 5 :: int) \<le> 0
   \<and> addBusinessDays 0 (Num (localMidnight 0 19742)) (- 5) = Num (localMidnight 0 19742)
   \<and> \<not> isBusinessDay 0 (Num (localMidnight 0 19742))
   \<and> countBusinessDays 0 (Num (localMidnight 0 19741)) (Num (localMidnight 0 19744)) \<le> 3"
proof -
  have h: "(- 5 :: int) \<le> 0" by simp
  note total = calendar_total [where tz = 0 and t = "localMidnight 0 19741" and n = "- 5"
      and d = "Num (localMidnight 0 19742)" and x = "localMidnight 0 19741"
      and y = "localMidnight 0 19744"]
  have k: "\<not> getNextBusinessDay 0 (Num (localMidnight 0 19741)) = Num (localMidnight 0 19741 + 1 * msPerDay)"
    "\<not> getNextBusinessDay 0 (Num (localMidnight 0 19741)) = Num (localMidnight 0 19741 + 2 * msPerDay)"
    by (simp_all add: getNextBusinessDay_Num calendar_eval)
  have w: "\<not> isBusinessDay 0 (Num (localMidnight 0 19742))" by (simp add: calendar_eval)
  have m: "localMidnight 0 19741 + 3 * msPerDay = localMidnight 0 19744"
    "max 0 ((localMidnight 0 19744 - localMidnight 0 19741) div msPerDay) = 3"
    by (simp_all add: calendar_eval)
  show ?thesis using total h k w m by auto
qed

section \<open>Claims about the engine\<close>

text \<open>
  Claim C1, evaluated where it fails. At 10:00 on Monday 2024-01-08, five hours behind UTC,
  contact \<open>c1\<close> with cadence 5 has its latest outreach logged on Monday 2024-01-01. Counted
  from the event's date, the claim gives the due date \<open>addBusinessDays\<close> of 2024-01-01 and
  5, which is Monday 2024-01-08, today; 7 calendar days since contact; and 0 days overdue.
  The engine's record has the due date Friday 2024-01-05, 8 days since contact and 1 day
  overdue, and is flagged as a rollover: \<^verbatim>\<open>new Date("2024-01-01")\<close> is midnight UTC, that is
  19:00 on Sunday 2023-12-31 in local time, and \<^verbatim>\<open>setHours(0, 0, 0, 0)\<close> moves it to local
  midnight of that Sunday, so every figure is computed from the day before the event's date.
  Lemma \<open>reads_date_string\<close> shows the same for every zone west of UTC and every date; lemma
  \<open>monday_run_utc\<close> shows that in UTC the engine gives the figures of the claim.
\<close>

theorem prior_event_read_a_day_early:
  "\<exists>st r. fetchData (- 18000000) ciCompare 1704726000000 (Some sampleOpps) (Some mondayContacts)
             (Some mondayLogs) = Inr st
     \<and> todayContacts st = [r]
     \<and> cadence_days r = Some 5 \<and> last_contact_date r = Some (IsoDate 19723)
     \<and> setHours0 (- 18000000) (Num 1704726000000) = Num (localMidnight (- 18000000) 19730)
     \<and> dayOfWeek (- 18000000) (localMidnight (- 18000000) 19723) = Monday
     \<and> dayOfWeek (- 18000000) (localMidnight (- 18000000) 19730) = Monday
     \<and> addBusinessDays (- 18000000) (Num (localMidnight (- 18000000) 19723)) 5
         = Num (localMidnight (- 18000000) 19730)
     \<and> formatDate (Num (localMidnight (- 18000000) 19730)) = Inr (IsoDate 19730)
     \<and> due_date r = IsoDate 19727
     \<and> floorDays (getTime (Num (localMidnight (- 18000000) 19730)))
         (getTime (Num (localMidnight (- 18000000) 19723))) = Num 7
     \<and> days_since_contact r = Some (Num 8)
     \<and> countBusinessDays (- 18000000) (Num (localMidnight (- 18000000) 19730))
         (Num (localMidnight (- 18000000) 19730)) = 0
     \<and> days_overdue r = 1 \<and> is_rollover r
     \<and> setHours0 (- 18000000) (newDate (IsoDate 19723)) = Num (localMidnight (- 18000000) 19722)"
proof -
  let ?r = "\<lparr>con_id = ''c1'', con_name = ''Ann'', opportunity_id = Some ''o1'', cadence_days = Some 5,
              health_system = \<lparr>hs_name = ''Mercy''\<rparr>,
              opportunity = \<lparr>opp_id = ''o1'', status = Some ''prospect'',
                              health_systems = \<lparr>hs_name = ''Mercy''\<rparr>\<rparr>,
              last_contact_date = Some (IsoDate 19723), days_since_contact = Some (Num 8),
              days_overdue = 1, due_date = IsoDate 19727, is_rollover = True\<rparr>"
  let ?st = "\<lparr>todayContacts = [?r],
          nextDayContacts = [],
          nextBusinessDay = Num (localMidnight (- 18000000) 19731),
          isBusinessDayToday = True\<rparr>"
  show ?thesis
    by (intro exI [of _ ?st] exI [of _ ?r]) (simp add: monday_run monday_dates)
qed

text \<open>
  Claim C2, evaluated where it fails. At 10:00 on Monday 2024-01-15, five hours behind
  UTC, contact \<open>c1\<close> was last reached on the day the engine reads as Tuesday 2024-01-02,
  with cadence 10: its due date is Tuesday 2024-01-16, after today and equal to the next
  business day, and it is no rollover. The engine nevertheless lists it in the due-today
  list and not in the next-business-day list: both filters re-read the due date from its
  UTC date string, and \<^verbatim>\<open>new Date("2024-01-16")\<close> followed by \<^verbatim>\<open>setHours(0, 0, 0, 0)\<close> is
  local midnight of 2024-01-15.

  Nor does the claim hold with the re-read date taken as the due date: the never-contacted
  contact \<open>c3\<close> is due today, its re-read date is Sunday 2024-01-14, before today, and
  today is a business day, yet it is no rollover.
\<close>

theorem due_next_business_day_listed_today:
  "\<exists>st r r'. fetchData (- 18000000) ciCompare 1705330800000 (Some sampleOpps) (Some sampleContacts)
             (Some sampleLogs) = Inr st
     \<and> setHours0 (- 18000000) (Num 1705330800000) = Num (localMidnight (- 18000000) 19737)
     \<and> addBusinessDays (- 18000000) (setHours0 (- 18000000) (newDate (IsoDate 19725))) 10
         = Num (localMidnight (- 18000000) 19738)
     \<and> nextBusinessDay st = Num (localMidnight (- 18000000) 19738)
     \<and> isBusinessDayToday st
     \<and> r \<in> set (todayContacts st)
     \<and> con_id r = ''c1'' \<and> due_date r = IsoDate 19738 \<and> \<not> is_rollover r
     \<and> r \<notin> set (nextDayContacts st)
     \<and> r' \<in> set (todayContacts st)
     \<and> con_id r' = ''c3'' \<and> due_date r' = IsoDate 19737 \<and> \<not> is_rollover r'
     \<and> setHours0 (- 18000000) (newDate (due_date r')) = Num (localMidnight (- 18000000) 19736)"
proof -
  let ?r = "\<lparr>con_id = ''c1'', con_name = ''Ann'', opportunity_id = Some ''o1'', cadence_days = Some 10,
              health_system = \<lparr>hs_name = ''Mercy''\<rparr>,
              opportunity = \<lparr>opp_id = ''o1'', status = Some ''prospect'',
                              health_systems = \<lparr>hs_name = ''Mercy''\<rparr>\<rparr>,
              last_contact_date = Some (IsoDate 19725), days_since_contact = Some (Num 13),
              days_overdue = 0, due_date = IsoDate 19738, is_rollover = False\<rparr>"
  let ?r' = "\<lparr>con_id = ''c3'', con_name = ''Cy'', opportunity_id = Some ''o1'', cadence_days = None,
              health_system = \<lparr>hs_name = ''Mercy''\<rparr>,
              opportunity = \<lparr>opp_id = ''o1'', status = Some ''prospect'',
                              health_systems = \<lparr>hs_name = ''Mercy''\<rparr>\<rparr>,
              last_contact_date = None, days_since_contact = None,
              days_overdue = 0, due_date = IsoDate 19737, is_rollover = False\<rparr>"
  let ?st = "\<lparr>todayContacts = [?r, ?r'],
          nextDayContacts = [],
          nextBusinessDay = Num (localMidnight (- 18000000) 19738),
          isBusinessDayToday = True\<rparr>"
  have reread: "setHours0 (- 18000000) (newDate (IsoDate 19737)) = Num (localMidnight (- 18000000) 19736)"
    by (simp add: newDate_def calendar_eval)
  show ?thesis
    by (intro exI [of _ ?st] exI [of _ ?r] exI [of _ ?r']) (simp add: sample_run sample_dates reread)
qed

text \<open>
  Claim C3. When \<^verbatim>\<open>fetchData\<close> completes, the due-today list is sorted with rollover
  records first, then by descending days overdue, then by ascending account name under
  \<^verbatim>\<open>localeCompare\<close>; the next-business-day list is sorted by ascending account name under
  \<^verbatim>\<open>localeCompare\<close>. \<^verbatim>\<open>localeCompare\<close> is the runtime's: the theorem holds for every
  comparator that is total and transitive, and its witness runs the engine with the
  case-insensitive lexical compare of the spec.
\<close>

theorem lists_sorted:
  assumes run: "fetchData tz localeCompare now allOppsData contactsData logsData = Inr st"
    and total: "\<And>a b. localeCompare a b \<le> 0 \<or> localeCompare b a \<le> 0"
    and trans: "\<And>a b c. localeCompare a b \<le> 0 \<Longrightarrow> localeCompare b c \<le> 0 \<Longrightarrow> localeCompare a c \<le> 0"
  shows "sorted_wrt (\<lambda>a b.
            is_rollover a \<and> \<not> is_rollover b
          \<or> is_rollover a = is_rollover b
            \<and> (days_overdue b < days_overdue a
               \<or> days_overdue a = days_overdue b
                 \<and> localeCompare (hs_name (health_system a)) (hs_name (health_system b)) \<le> 0))
          (todayContacts st)
       \<and> sorted_wrt (\<lambda>a b. localeCompare (hs_name (health_system a)) (hs_name (health_system b)) \<le> 0)
          (nextDayContacts st)"
proof -
  from fetchData_Inr [OF run] obtain allDueContacts where a:
    "todayContacts st = sort_cmp (compareToday localeCompare)
        (filter (isDueToday tz (setHours0 tz (Num now))) allDueContacts)"
    "nextDayContacts st = sort_cmp (compareAccount localeCompare)
        (filter (isDueNextDay tz (getNextBusinessDay tz (setHours0 tz (Num now)))) allDueContacts)"
    by blast
  have t1: "compareToday localeCompare x y \<le> 0 \<or> compareToday localeCompare y x \<le> 0" for x y
    using total [of "hs_name (health_system x)" "hs_name (health_system y)"]
    by (auto simp add: compareToday_le)
  have t2: "compareToday localeCompare x y \<le> 0 \<Longrightarrow> compareToday localeCompare y z \<le> 0
            \<Longrightarrow> compareToday localeCompare x z \<le> 0" for x y z
    using trans [of "hs_name (health_system x)" "hs_name (health_system y)" "hs_name (health_system z)"]
    unfolding compareToday_le by auto
  have s1: "sorted_wrt (\<lambda>a b. compareToday localeCompare a b \<le> 0) (todayContacts st)"
    unfolding a(1) by (rule sorted_sort_cmp) (use t1 t2 in blast)+
  have n1: "compareAccount localeCompare x y \<le> 0 \<or> compareAccount localeCompare y x \<le> 0" for x y
    using total by (simp add: compareAccount_def)
  have n2: "compareAccount localeCompare x y \<le> 0 \<Longrightarrow> compareAccount localeCompare y z \<le> 0
            \<Longrightarrow> compareAccount localeCompare x z \<le> 0" for x y z
    using trans unfolding compareAccount_def by blast
  have s2: "sorted_wrt (\<lambda>a b. compareAccount localeCompare a b \<le> 0) (nextDayContacts st)"
    unfolding a(2) by (rule sorted_sort_cmp) (use n1 n2 in blast)+
  show ?thesis using s1 s2 by (simp add: compareToday_le compareAccount_def)
qed

theorem lists_sorted_witness:
  "\<exists>st. fetchData 0 ciCompare 1705312800000 (Some orderingOpps) (Some orderingContacts)
          (Some orderingLogs) = Inr st
   \<and> map (\<lambda>r. (con_id r, is_rollover r, days_overdue r, hs_name (health_system r))) (todayContacts st)
       = [(''c2'', True, 7, ''alpha care''), (''c1'', True, 3, ''Zeta Health''),
          (''c4'', False, 0, ''acme''), (''c3'', False, 0, ''Beta Clinic'')]
   \<and> map (\<lambda>r. (con_id r, hs_name (health_system r))) (nextDayContacts st)
       = [(''c6'', ''delta''), (''c5'', ''Mercy'')]
   \<and> sorted_wrt (\<lambda>a b.
            is_rollover a \<and> \<not> is_rollover b
          \<or> is_rollover a = is_rollover b
            \<and> (days_overdue b < days_overdue a
               \<or> days_overdue a = days_overdue b
                 \<and> ciCompare (hs_name (health_system a)) (hs_name (health_system b)) \<le> 0))
          (todayContacts st)
   \<and> sorted_wrt (\<lambda>a b. ciCompare (hs_name (health_system a)) (hs_name (health_system b)) \<le> 0)
          (nextDayContacts st)"
proof -
  from ordering_run obtain st where st:
    "fetchData 0 ciCompare 1705312800000 (Some orderingOpps) (Some orderingContacts)
          (Some orderingLogs) = Inr st
     \<and> map (\<lambda>r. (con_id r, is_rollover r, days_overdue r, hs_name (health_system r))) (todayContacts st)
       = [(''c2'', True, 7, ''alpha care''), (''c1'', True, 3, ''Zeta Health''),
          (''c4'', False, 0, ''acme''), (''c3'', False, 0, ''Beta Clinic'')]
     \<and> map (\<lambda>r. (con_id r, hs_name (health_system r))) (nextDayContacts st)
       = [(''c6'', ''delta''), (''c5'', ''Mercy'')]" ..
  then have run: "fetchData 0 ciCompare 1705312800000 (Some orderingOpps) (Some orderingContacts)
          (Some orderingLogs) = Inr st" by (rule conjunct1)
  have sorted: "sorted_wrt (\<lambda>a b.
            is_rollover a \<and> \<not> is_rollover b
          \<or> is_rollover a = is_rollover b
            \<and> (days_overdue b < days_overdue a
               \<or> days_overdue a = days_overdue b
                 \<and> ciCompare (hs_name (health_system a)) (hs_name (health_system b)) \<le> 0))
          (todayContacts st)
       \<and> sorted_wrt (\<lambda>a b. ciCompare (hs_name (health_system a)) (hs_name (health_system b)) \<le> 0)
          (nextDayContacts st)"
    using run ciCompare_total ciCompare_trans by (rule lists_sorted)
  show ?thesis
    by (rule exI [of _ st]) (use st sorted in \<open>simp only: conj_assoc\<close>)
qed




text \<open>
  Claim C7, where it fails: a negative cadence is not replaced by the default. Contact
  \<open>c1\<close> with cadence -5, last reached on the day the engine reads as 2024-01-02, gets that
  same day as its due date (and is listed as a rollover, 9 business days overdue), not
  2024-01-16, the date ten business days later.
\<close>

theorem negative_cadence_not_default:
  "\<exists>st r. fetchData (- 18000000) ciCompare 1705330800000 (Some sampleOpps)
             (Some negativeCadenceContacts) (Some sampleLogs) = Inr st
     \<and> todayContacts st = [r] \<and> cadence_days r = Some (- 5)
     \<and> due_date r = IsoDate 19724
     \<and> formatDate (addBusinessDays (- 18000000) (setHours0 (- 18000000) (newDate (IsoDate 19725))) 10)
         = Inr (IsoDate 19738)"
  by (simp add: negative_run sample_dates) (simp add: formatDate_def calendar_eval)

text \<open>
  Claim C7 as amended. For a contact of a prospect opportunity whose prior outreach event
  carries a date the engine can read, the body of the engine's loop returns a record
  whatever the cadence: no division takes place and every loop ends. The due date is counted from the last-contact date as the engine reads
  it, and the record stores it as its date string. A missing cadence and a cadence of 0
  give the due date of cadence 10; a positive cadence is used as it is; a negative cadence
  is used as it is too, and \<^const>\<open>addBusinessDays\<close> then returns the last-contact date
  itself. An event whose date cannot be read gives no record (lemma \<open>malformed_run\<close>).
  Time values are unbounded here, as stated with the Date model; in the runtime the
  statement needs the due date to stay in the range a \<^verbatim>\<open>Date\<close> can hold, which it does for
  every cadence up to 70 million counted from a date of this century.
\<close>

theorem cadence_default:
  assumes opp: "oppsMap (oppKey contact) = Some opp"
    and last: "lastOutreach (con_id contact) = Some l"
    and lcd: "setHours0 tz (newDate (date l)) = Num lastContactDate"
  shows "\<exists>r. dueInfo tz today isBizDay nextBizDay oppsMap lastOutreach contact = Inr (Some r)
       \<and> (cadence_days contact = None \<or> cadence_days contact = Some 0
            \<longrightarrow> formatDate (addBusinessDays tz (Num lastContactDate) 10) = Inr (due_date r))
       \<and> (\<forall>n. cadence_days contact = Some n \<and> 0 < n
            \<longrightarrow> formatDate (addBusinessDays tz (Num lastContactDate) n) = Inr (due_date r))
       \<and> (\<forall>n. cadence_days contact = Some n \<and> n < 0
            \<longrightarrow> formatDate (Num lastContactDate) = Inr (due_date r))"
proof -
  let ?dueDate = "addBusinessDays tz (Num lastContactDate) (cadenceOrDefault (cadence_days contact))"
  obtain due where due: "?dueDate = Num due"
    using addBusinessDays_Num [of tz lastContactDate] by blast
  let ?r = "Contact.extend contact
               (ContactWithDueInfo.fields (health_systems opp) opp (Some (date l))
                  (Some (floorDays (getTime today) (getTime (Num lastContactDate))))
                  (countBusinessDays tz ?dueDate today) (IsoDate (Day due))
                  (num_lt ?dueDate today \<and> isBizDay))"
  have r: "dueInfo tz today isBizDay nextBizDay oppsMap lastOutreach contact = Inr (Some ?r)"
    using due dueInfo_with_last [where oppsMap = oppsMap and lastOutreach = lastOutreach, OF opp last,
        of tz today isBizDay nextBizDay]
    by (simp add: lcd Let_def formatDate_def)
  have f: "formatDate ?dueDate = Inr (due_date ?r)"
    using due by (simp add: formatDate_def record_eval)
  have a: "cadence_days contact = None \<or> cadence_days contact = Some 0
            \<longrightarrow> formatDate (addBusinessDays tz (Num lastContactDate) 10) = Inr (due_date ?r)"
    using f by (auto simp add: cadenceOrDefault_def)
  have b: "\<forall>n. cadence_days contact = Some n \<and> 0 < n
            \<longrightarrow> formatDate (addBusinessDays tz (Num lastContactDate) n) = Inr (due_date ?r)"
    using f by (auto simp add: cadenceOrDefault_def)
  have c: "\<forall>n. cadence_days contact = Some n \<and> n < 0
            \<longrightarrow> formatDate (Num lastContactDate) = Inr (due_date ?r)"
    using f by (auto simp add: cadenceOrDefault_def addBusinessDays_nonpos)
  show ?thesis
    by (intro exI [of _ ?r] conjI r a b c)
qed

theorem cadence_default_witness:
  "(\<exists>r. dueInfo (- 18000000) (Num 1705294800000) True (Num 1705381200000)
          [''o1'' \<mapsto> \<lparr>opp_id = ''o1'', status = Some ''prospect'', health_systems = \<lparr>hs_name = ''Mercy''\<rparr>\<rparr>]
          [''c1'' \<mapsto> \<lparr>date = IsoDate 19725, method' = ''email''\<rparr>]
          \<lparr>con_id = ''c1'', con_name = ''Ann'', opportunity_id = Some ''o1'', cadence_days = None\<rparr>
        = Inr (Some r)
      \<and> Inr (due_date r) = formatDate (addBusinessDays (- 18000000) (Num 1704171600000) 10))
   \<and> (\<exists>r. dueInfo (- 18000000) (Num 1705294800000) True (Num 1705381200000)
          [''o1'' \<mapsto> \<lparr>opp_id = ''o1'', status = Some ''prospect'', health_systems = \<lparr>hs_name = ''Mercy''\<rparr>\<rparr>]
          [''c1'' \<mapsto> \<lparr>date = IsoDate 19725, method' = ''email''\<rparr>]
          \<lparr>con_id = ''c1'', con_name = ''Ann'', opportunity_id = Some ''o1'', cadence_days = Some 0\<rparr>
        = Inr (Some r)
      \<and> Inr (due_date r) = formatDate (addBusinessDays (- 18000000) (Num 1704171600000) 10))
   \<and> (\<exists>r. dueInfo (- 18000000) (Num 1705294800000) True (Num 1705381200000)
          [''o1'' \<mapsto> \<lparr>opp_id = ''o1'', status = Some ''prospect'', health_systems = \<lparr>hs_name = ''Mercy''\<rparr>\<rparr>]
          [''c1'' \<mapsto> \<lparr>date = IsoDate 19725, method' = ''email''\<rparr>]
          \<lparr>con_id = ''c1'', con_name = ''Ann'', opportunity_id = Some ''o1'', cadence_days = Some 3\<rparr>
        = Inr (Some r)
      \<and> Inr (due_date r) = formatDate (addBusinessDays (- 18000000) (Num 1704171600000) 3))
   \<and> (\<exists>r. dueInfo (- 18000000) (Num 1705294800000) True (Num 1705381200000)
          [''o1'' \<mapsto> \<lparr>opp_id = ''o1'', status = Some ''prospect'', health_systems = \<lparr>hs_name = ''Mercy''\<rparr>\<rparr>]
          [''c1'' \<mapsto> \<lparr>date = IsoDate 19725, method' = ''email''\<rparr>]
          \<lparr>con_id = ''c1'', con_name = ''Ann'', opportunity_id = Some ''o1'', cadence_days = Some (- 5)\<rparr>
        = Inr (Some r)
      \<and> Inr (due_date r) = formatDate (Num 1704171600000))"
proof -
  let ?opp = "\<lparr>opp_id = ''o1'', status = Some ''prospect'', health_systems = \<lparr>hs_name = ''Mercy''\<rparr>\<rparr>"
  let ?l = "\<lparr>date = IsoDate 19725, method' = ''email''\<rparr>"
  let ?c = "\<lambda>c. \<lparr>con_id = ''c1'', con_name = ''Ann'', opportunity_id = Some ''o1'', cadence_days = c\<rparr>"
  have h1: "[''o1'' \<mapsto> ?opp] (oppKey (?c c)) = Some ?opp" for c
    by (simp add: oppKey_def)
  have h2: "[''c1'' \<mapsto> ?l] (con_id (?c c)) = Some ?l" for c
    by simp
  have h3: "setHours0 (- 18000000) (newDate (date ?l)) = Num 1704171600000"
    by (simp add: newDate_def calendar_eval)
  have t: "\<exists>r. dueInfo (- 18000000) (Num 1705294800000) True (Num 1705381200000)
               [''o1'' \<mapsto> ?opp] [''c1'' \<mapsto> ?l] (?c c) = Inr (Some r)
       \<and> (c = None \<or> c = Some 0
            \<longrightarrow> formatDate (addBusinessDays (- 18000000) (Num 1704171600000) 10) = Inr (due_date r))
       \<and> (\<forall>n. c = Some n \<and> 0 < n
            \<longrightarrow> formatDate (addBusinessDays (- 18000000) (Num 1704171600000) n) = Inr (due_date r))
       \<and> (\<forall>n. c = Some n \<and> n < 0
            \<longrightarrow> formatDate (Num 1704171600000) = Inr (due_date r))" for c
    using cadence_default [where oppsMap = "[''o1'' \<mapsto> ?opp]" and lastOutreach = "[''c1'' \<mapsto> ?l]"
        and contact = "?c c" and today = "Num 1705294800000" and isBizDay = True
        and nextBizDay = "Num 1705381200000", OF h1 h2 h3]
    by simp
  have a: "\<exists>r. dueInfo (- 18000000) (Num 1705294800000) True (Num 1705381200000)
               [''o1'' \<mapsto> ?opp] [''c1'' \<mapsto> ?l] (?c None) = Inr (Some r)
       \<and> Inr (due_date r) = formatDate (addBusinessDays (- 18000000) (Num 1704171600000) 10)"
    using t [of None] by auto
  have b: "\<exists>r. dueInfo (- 18000000) (Num 1705294800000) True (Num 1705381200000)
               [''o1'' \<mapsto> ?opp] [''c1'' \<mapsto> ?l] (?c (Some 0)) = Inr (Some r)
       \<and> Inr (due_date r) = formatDate (addBusinessDays (- 18000000) (Num 1704171600000) 10)"
    using t [of "Some 0"] by auto
  have c: "\<exists>r. dueInfo (- 18000000) (Num 1705294800000) True (Num 1705381200000)
               [''o1'' \<mapsto> ?opp] [''c1'' \<mapsto> ?l] (?c (Some 3)) = Inr (Some r)
       \<and> Inr (due_date r) = formatDate (addBusinessDays (- 18000000) (Num 1704171600000) 3)"
    using t [of "Some 3"] by auto
  have d: "\<exists>r. dueInfo (- 18000000) (Num 1705294800000) True (Num 1705381200000)
               [''o1'' \<mapsto> ?opp] [''c1'' \<mapsto> ?l] (?c (Some (- 5))) = Inr (Some r)
       \<and> Inr (due_date r) = formatDate (Num 1704171600000)"
    using t [of "Some (- 5)"] by auto
  show ?thesis using a b c d by (intro conjI)
qed

text \<open>
  Claim C9. Every record in the due-today list or in the next-business-day list belongs to
  a contact the store returned, and carries an opportunity of the fetched list whose id is
  the contact's \<^verbatim>\<open>opportunity_id\<close> and whose status is unset, empty or \<^verbatim>\<open>prospect\<close>, hence
  neither \<^verbatim>\<open>active\<close> nor \<^verbatim>\<open>won\<close>: a contact whose opportunities are all active or won
  is in neither list.
\<close>

theorem listed_contacts_are_prospects:
  assumes "fetchData tz localeCompare now allOppsData contactsData logsData = Inr st"
    and "r \<in> set (todayContacts st) \<union> set (nextDayContacts st)"
  shows "Contact.truncate r \<in> set (orEmpty contactsData)
       \<and> opportunity r \<in> set (orEmpty allOppsData)
       \<and> opp_id (opportunity r) = oppKey r
       \<and> (status (opportunity r) = None \<or> status (opportunity r) = Some []
           \<or> status (opportunity r) = Some ''prospect'')
       \<and> status (opportunity r) \<noteq> Some ''active'' \<and> status (opportunity r) \<noteq> Some ''won''
       \<and> (\<exists>opp\<in>set (orEmpty allOppsData). opp_id opp = oppKey r
             \<and> status opp \<noteq> Some ''active'' \<and> status opp \<noteq> Some ''won'')"
proof -
  from listed_is_processed [OF assms] obtain contact where c:
    "contact \<in> set (orEmpty contactsData)"
    "dueInfo tz (setHours0 tz (Num now)) (isBusinessDay tz (setHours0 tz (Num now)))
       (getNextBusinessDay tz (setHours0 tz (Num now)))
       (buildOppsMap (filter isProspect (orEmpty allOppsData)))
       (buildLastOutreach (orEmpty logsData)) contact = Inr (Some r)"
    by blast
  from dueInfo_Some [OF c(2)]
  have m: "buildOppsMap (filter isProspect (orEmpty allOppsData)) (oppKey contact) = Some (opportunity r)"
    and t: "Contact.truncate r = contact"
    by simp_all
  from buildOppsMap_Some [OF m]
  have o: "opportunity r \<in> set (orEmpty allOppsData)" "isProspect (opportunity r)"
    "opp_id (opportunity r) = oppKey contact"
    by simp_all
  have k: "oppKey contact = oppKey r" using t oppKey_truncate [of r] by simp
  have p: "status (opportunity r) = None \<or> status (opportunity r) = Some []
           \<or> status (opportunity r) = Some ''prospect''"
    using o(2) by (simp add: isProspect_def)
  then have n: "status (opportunity r) \<noteq> Some ''active''" "status (opportunity r) \<noteq> Some ''won''"
    by auto
  have e: "\<exists>opp\<in>set (orEmpty allOppsData). opp_id opp = oppKey r
             \<and> status opp \<noteq> Some ''active'' \<and> status opp \<noteq> Some ''won''"
    using o(1,3) k n by (intro bexI [of _ "opportunity r"]) simp_all
  show ?thesis using c(1) t o(1,3) k p n e by simp
qed

theorem listed_contacts_are_prospects_witness:
  "\<exists>st r. fetchData (- 18000000) ciCompare 1705330800000 (Some sampleOpps) (Some sampleContacts)
             (Some sampleLogs) = Inr st
     \<and> r \<in> set (todayContacts st) \<union> set (nextDayContacts st)
     \<and> con_id r = ''c1''
     \<and> Contact.truncate r \<in> set sampleContacts
     \<and> opportunity r \<in> set sampleOpps
     \<and> opp_id (opportunity r) = ''o1''
     \<and> status (opportunity r) = Some ''prospect''
     \<and> ''c2'' \<notin> con_id ` (set (todayContacts st) \<union> set (nextDayContacts st))"
proof -
  let ?r = "\<lparr>con_id = ''c1'', con_name = ''Ann'', opportunity_id = Some ''o1'', cadence_days = Some 10,
              health_system = \<lparr>hs_name = ''Mercy''\<rparr>,
              opportunity = \<lparr>opp_id = ''o1'', status = Some ''prospect'',
                              health_systems = \<lparr>hs_name = ''Mercy''\<rparr>\<rparr>,
              last_contact_date = Some (IsoDate 19725), days_since_contact = Some (Num 13),
              days_overdue = 0, due_date = IsoDate 19738, is_rollover = False\<rparr>"
  let ?st = "\<lparr>todayContacts =
            [?r,
             \<lparr>con_id = ''c3'', con_name = ''Cy'', opportunity_id = Some ''o1'', cadence_days = None,
              health_system = \<lparr>hs_name = ''Mercy''\<rparr>,
              opportunity = \<lparr>opp_id = ''o1'', status = Some ''prospect'',
                              health_systems = \<lparr>hs_name = ''Mercy''\<rparr>\<rparr>,
              last_contact_date = None, days_since_contact = None,
              days_overdue = 0, due_date = IsoDate 19737, is_rollover = False\<rparr>],
          nextDayContacts = [],
          nextBusinessDay = Num (localMidnight (- 18000000) 19738),
          isBusinessDayToday = True\<rparr>"
  have h: "?r \<in> set (todayContacts ?st) \<union> set (nextDayContacts ?st)" by simp
  from listed_contacts_are_prospects [OF sample_run h]
  have p: "Contact.truncate ?r \<in> set sampleContacts" "opportunity ?r \<in> set sampleOpps"
    "opp_id (opportunity ?r) = oppKey ?r"
    by (simp_all add: orEmpty_def)
  have "''c2'' \<notin> con_id ` (set (todayContacts ?st) \<union> set (nextDayContacts ?st))" by simp
  with p h show ?thesis
    using sample_run by (intro exI [of _ ?st] exI [of _ ?r]) (simp add: oppKey_def)
qed

end
